theory Spec2Isabelle
  imports Main
begin

section \<open>Data model\<close>

text \<open>
  A decoded JSON document, as \<open>requests.get(url).json()\<close> and \<open>json.load\<close> return it:
  \<open>None\<close>, a bool, a number, a \<open>str\<close>, a \<open>list\<close> or a \<open>dict\<close>. A dict keeps its
  insertion order, so it is an association list; the decoder never produces a repeated key.
  \<open>JNum\<close> carries an integer: the program reads no number, and a float behaves like an
  integer in the two places a number can reach (truthiness, iteration). The characters of a
  \<open>string\<close> stand for the code points of a Python \<open>str\<close>.
\<close>

datatype json =
    JNull
  | JBool bool
  | JNum int
  | JStr string
  | JArr "json list"
  | JObj "(string \<times> json) list"

text \<open>The exceptions that can leave a function of the program.\<close>

datatype py_error =
    KeyError string
  | TypeError
  | ConnectionError
  | HTTPError nat
  | JSONDecodeError
  | OSError
  | SystemExit nat

text \<open>The two subclasses of \<open>HttpClient\<close> (lines 26 and 48).\<close>

datatype http_client = RequestsHttpClient | UrllibHttpClient

text \<open>
  What the server finally answers to a GET, redirects followed: the status code, the body
  as bytes, and what the JSON decoder makes of the body (\<open>None\<close> when it raises). The
  decoder itself is not modelled, so \<open>document\<close> is given beside \<open>body\<close>.
\<close>

record response =
  status_code :: nat
  body :: string
  document :: "json option"

text \<open>The broken-down local time that \<open>time.strftime\<close> formats.\<close>

record struct_time =
  tm_year :: nat
  tm_mon :: nat
  tm_mday :: nat
  tm_hour :: nat
  tm_min :: nat
  tm_sec :: nat

text \<open>
  Everything the interpreter, the operating system and the network decide, fixed for one
  run: the answer to a GET of each URL (\<open>None\<close>: no answer at all, the library raises),
  the DEBUG messages that urllib3 logs while \<open>requests.get\<close> fetches a URL, the successive
  readings of the clock, \<open>os.path.abspath\<close>, whether the operating system lets a directory
  be made at a path (permissions, the length of the name, free space), \<open>str()\<close> of a decoded
  JSON value that is not a \<open>str\<close>, and \<open>str()\<close> of the client object.
\<close>

record host =
  network :: "string \<Rightarrow> response option"
  requests_debug :: "string \<Rightarrow> string list"
  localtime :: "nat \<Rightarrow> struct_time"
  abspath :: "string \<Rightarrow> string"
  mkdir_permitted :: "string \<Rightarrow> bool"
  str_of_json :: "json \<Rightarrow> string"
  str_of_client :: "http_client \<Rightarrow> string"

datatype node = Dir | File string

datatype http_kind = FetchJson | Download

record http_event =
  via :: http_client
  kind :: http_kind
  url :: string

text \<open>
  A line on standard output, with who wrote it. Line 59 gives the root logger a handler on
  standard output at level DEBUG and the format \<open>%(message)s\<close>, so three kinds of line arrive
  there: what \<open>print\<close> writes, the messages the program logs itself (\<open>logging.info\<close> and
  \<open>logging.debug\<close> go to the root logger), and the messages that the logger of a library
  hands up to the root handler.
\<close>

datatype out_line = Printed string | Logged string | Library string

text \<open>
  The state the program changes: the file system (a path as written to what is there; paths
  are absolute and normalised, as \<open>os.path.abspath\<close> returns them), the lines on standard
  output, the GET requests issued so far, and how many times the clock was read.
\<close>

record world =
  files :: "string \<rightharpoonup> node"
  stdout :: "out_line list"
  http_log :: "http_event list"
  clock_reads :: nat

section \<open>Python and library primitives\<close>

text \<open>\<open>str(n)\<close> for a natural number: its decimal digits.\<close>

definition digit_char :: "nat \<Rightarrow> char" where
  "digit_char d = ''0123456789'' ! d"

fun str_nat :: "nat \<Rightarrow> string" where
  "str_nat n = (if n < 10 then [digit_char n] else str_nat (n div 10) @ [digit_char (n mod 10)])"

declare str_nat.simps [simp del]

text \<open>Truthiness of a decoded JSON value (\<open>bool(x)\<close>).\<close>

fun truthy :: "json \<Rightarrow> bool" where
  "truthy JNull = False"
| "truthy (JBool b) = b"
| "truthy (JNum n) = (n \<noteq> 0)"
| "truthy (JStr s) = (s \<noteq> [])"
| "truthy (JArr xs) = (xs \<noteq> [])"
| "truthy (JObj kvs) = (kvs \<noteq> [])"

text \<open>
  What \<open>list += x\<close> appends: the items of a list, the keys of a dict, the characters of a
  str; a number, a bool or \<open>None\<close> is not iterable (TypeError).
\<close>

fun py_iter :: "json \<Rightarrow> py_error + json list" where
  "py_iter (JArr xs) = Inr xs"
| "py_iter (JObj kvs) = Inr (map (\<lambda>kv. JStr (fst kv)) kvs)"
| "py_iter (JStr s) = Inr (map (\<lambda>c. JStr [c]) s)"
| "py_iter _ = Inl TypeError"

text \<open>
  \<open>x[key]\<close> with a str key: a lookup in a dict (KeyError when absent); a str and a list
  take integer indices only, and the other values are not subscriptable (TypeError).
\<close>

fun subscript :: "json \<Rightarrow> string \<Rightarrow> py_error + json" where
  "subscript (JObj kvs) k = (case map_of kvs k of None \<Rightarrow> Inl (KeyError k) | Some v \<Rightarrow> Inr v)"
| "subscript _ k = Inl TypeError"

text \<open>A value inside an f-string: a str as it is, anything else through \<open>str()\<close>.\<close>

definition format_value :: "host \<Rightarrow> json \<Rightarrow> string" where
  "format_value h v = (case v of JStr s \<Rightarrow> s | _ \<Rightarrow> str_of_json h v)"

text \<open>\<open>x + '.zip'\<close>: concatenation for a str, TypeError for every other JSON value.\<close>

definition add_str :: "json \<Rightarrow> string \<Rightarrow> py_error + string" where
  "add_str v suffix = (case v of JStr s \<Rightarrow> Inr (s @ suffix) | _ \<Rightarrow> Inl TypeError)"

text \<open>
  \<open>os.path.join(a, b)\<close>, and the two halves of \<open>os.path.split(p)\<close>: \<open>os.path.dirname(p)\<close> and
  \<open>os.path.basename(p)\<close>, of \<open>posixpath\<close>.
\<close>

definition os_path_join :: "string \<Rightarrow> string \<Rightarrow> string" where
  "os_path_join a b =
     (if b \<noteq> [] \<and> hd b = CHR ''/'' then b
      else if a = [] \<or> last a = CHR ''/'' then a @ b
      else a @ ''/'' @ b)"

definition rstrip_slash :: "string \<Rightarrow> string" where
  "rstrip_slash p = rev (dropWhile (\<lambda>c. c = CHR ''/'') (rev p))"

definition os_path_dirname :: "string \<Rightarrow> string" where
  "os_path_dirname p =
     (let head = rev (dropWhile (\<lambda>c. c \<noteq> CHR ''/'') (rev p))
      in if head \<noteq> [] \<and> \<not> list_all (\<lambda>c. c = CHR ''/'') head then rstrip_slash head else head)"

definition os_path_basename :: "string \<Rightarrow> string" where
  "os_path_basename p = rev (takeWhile (\<lambda>c. c \<noteq> CHR ''/'') (rev p))"

text \<open>
  \<open>os.mkdir(p)\<close>: fails when something is at the path already, when the parent is not a
  directory, or when the operating system refuses.
\<close>

definition os_mkdir :: "host \<Rightarrow> string \<Rightarrow> (string \<rightharpoonup> node) \<Rightarrow> (py_error + unit) \<times> (string \<rightharpoonup> node)" where
  "os_mkdir h p fs =
     (if fs p \<noteq> None \<or> fs (os_path_dirname p) \<noteq> Some Dir \<or> \<not> mkdir_permitted h p
      then (Inl OSError, fs)
      else (Inr (), fs(p \<mapsto> Dir)))"

text \<open>
  \<open>os.makedirs(name)\<close>: splits the path, makes the parent first (and so every missing
  ancestor) when it does not exist, then the directory itself; the first \<open>mkdir\<close> that fails
  ends it, and what was made before stays. For a normalised path the last component is
  neither empty nor \<open>.\<close>, so the two branches of \<open>makedirs\<close> for those cases are left out.
  \<open>makedirs\<close> ignores a \<open>FileExistsError\<close> of the call for the parent; that call is made only
  when nothing is at the parent's path, and nothing else writes meanwhile, so this error
  cannot come from it and every error that does come is passed on.
\<close>

function os_makedirs :: "host \<Rightarrow> string \<Rightarrow> (string \<rightharpoonup> node) \<Rightarrow> (py_error + unit) \<times> (string \<rightharpoonup> node)" where
  "os_makedirs h name fs =
     (if os_path_dirname name \<noteq> [] \<and> os_path_basename name \<noteq> []
         \<and> fs (os_path_dirname name) = None
      then
        (case os_makedirs h (os_path_dirname name) fs of
           (Inl e, fs1) \<Rightarrow> (Inl e, fs1)
         | (Inr _, fs1) \<Rightarrow> os_mkdir h name fs1)
      else os_mkdir h name fs)"
  by pat_completeness auto
termination
proof (relation "measure (\<lambda>(h, name, fs). length name)")
  show "wf (measure (\<lambda>(h, name, fs). length name))" by simp
next
  fix h :: host and name :: string and fs :: "string \<rightharpoonup> node"
  assume a: "os_path_dirname name \<noteq> [] \<and> os_path_basename name \<noteq> []
         \<and> fs (os_path_dirname name) = None"
  let ?front = "dropWhile (\<lambda>c. c \<noteq> CHR ''/'') (rev name)"
  have "length (takeWhile (\<lambda>c. c \<noteq> CHR ''/'') (rev name)) + length ?front = length name"
    by (metis length_append length_rev takeWhile_dropWhile_id)
  moreover have "takeWhile (\<lambda>c. c \<noteq> CHR ''/'') (rev name) \<noteq> []"
    using a by (simp add: os_path_basename_def)
  ultimately have shorter: "length ?front < length name"
    by (cases "takeWhile (\<lambda>c. c \<noteq> CHR ''/'') (rev name)") auto
  have "length (rstrip_slash (rev ?front)) \<le> length ?front"
    by (simp add: rstrip_slash_def) (metis length_dropWhile_le length_rev)
  then have "length (os_path_dirname name) \<le> length ?front"
    by (simp add: os_path_dirname_def Let_def)
  with shorter show "((h, os_path_dirname name, fs), (h, name, fs)) \<in> measure (\<lambda>(h, name, fs). length name)"
    by simp
qed

declare os_makedirs.simps [simp del]

text \<open>
  \<open>open(path, 'wb')\<close> followed by writing \<open>data\<close>: fails when the path is a directory or its
  parent is not one, otherwise the file holds exactly \<open>data\<close>.
\<close>

definition write_file :: "string \<Rightarrow> string \<Rightarrow> world \<Rightarrow> (py_error + unit) \<times> world" where
  "write_file path data s =
     (if files s path = Some Dir \<or> files s (os_path_dirname path) \<noteq> Some Dir
      then (Inl OSError, s)
      else (Inr (), s\<lparr>files := (files s)(path \<mapsto> File data)\<rparr>))"

text \<open>
  \<open>logging.info\<close> and \<open>logging.debug\<close> of the program under the configuration of line 59, and
  \<open>print\<close>.
\<close>

definition emit :: "string \<Rightarrow> world \<Rightarrow> world" where
  "emit line s = s\<lparr>stdout := stdout s @ [Logged line]\<rparr>"

definition py_print :: "string \<Rightarrow> world \<Rightarrow> world" where
  "py_print line s = s\<lparr>stdout := stdout s @ [Printed line]\<rparr>"

text \<open>
  \<open>time.strftime(fmt)\<close>: reads the clock once and formats the reading. \<open>%Y\<close> is the year
  in decimal, the other directives used are zero-padded to two digits.
\<close>

definition pad2 :: "nat \<Rightarrow> string" where
  "pad2 n = (if n < 10 then CHR ''0'' # str_nat n else str_nat n)"

fun directive :: "char \<Rightarrow> struct_time \<Rightarrow> string" where
  "directive c t =
     (if c = CHR ''Y'' then str_nat (tm_year t)
      else if c = CHR ''m'' then pad2 (tm_mon t)
      else if c = CHR ''d'' then pad2 (tm_mday t)
      else if c = CHR ''H'' then pad2 (tm_hour t)
      else if c = CHR ''M'' then pad2 (tm_min t)
      else if c = CHR ''S'' then pad2 (tm_sec t)
      else [CHR ''%'', c])"

fun strftime :: "string \<Rightarrow> struct_time \<Rightarrow> string" where
  "strftime [] t = []"
| "strftime [c] t = [c]"
| "strftime (c # d # fmt) t =
     (if c = CHR ''%'' then directive d t @ strftime fmt t else c # strftime (d # fmt) t)"

definition time_strftime :: "host \<Rightarrow> string \<Rightarrow> world \<Rightarrow> string \<times> world" where
  "time_strftime h fmt s =
     (strftime fmt (localtime h (clock_reads s)), s\<lparr>clock_reads := Suc (clock_reads s)\<rparr>)"

section \<open>The HTTP gateway (lines 14 to 57)\<close>

definition record_get :: "http_client \<Rightarrow> http_kind \<Rightarrow> string \<Rightarrow> world \<Rightarrow> world" where
  "record_get c k u s = s\<lparr>http_log := http_log s @ [\<lparr>via = c, kind = k, url = u\<rparr>]\<rparr>"

text \<open>
  \<open>requests.get(url)\<close> returns the response whatever its status and raises when there is
  none. \<open>urllib.request.urlopen(url)\<close> raises as well when there is none, and its
  \<open>HTTPErrorProcessor\<close> raises \<open>HTTPError\<close> for every final status outside 200..299.
  \<open>requests\<close> works through urllib3, whose loggers report every connection and request at
  level DEBUG; under line 59 these messages are printed too. \<open>urllib\<close> logs nothing.
\<close>

definition urllib3_debug :: "host \<Rightarrow> string \<Rightarrow> world \<Rightarrow> world" where
  "urllib3_debug h u s = s\<lparr>stdout := stdout s @ map Library (requests_debug h u)\<rparr>"

definition requests_get :: "host \<Rightarrow> string \<Rightarrow> py_error + response" where
  "requests_get h u = (case network h u of None \<Rightarrow> Inl ConnectionError | Some r \<Rightarrow> Inr r)"

definition urlopen :: "host \<Rightarrow> string \<Rightarrow> py_error + response" where
  "urlopen h u =
     (case network h u of
        None \<Rightarrow> Inl ConnectionError
      | Some r \<Rightarrow>
          if 200 \<le> status_code r \<and> status_code r < 300 then Inr r
          else Inl (HTTPError (status_code r)))"

text \<open>\<open>response.json()\<close> and \<open>json.load(response)\<close>.\<close>

definition decode_json :: "response \<Rightarrow> py_error + json" where
  "decode_json r = (case document r of None \<Rightarrow> Inl JSONDecodeError | Some j \<Rightarrow> Inr j)"

fun request_for_json :: "http_client \<Rightarrow> host \<Rightarrow> string \<Rightarrow> world \<Rightarrow> (py_error + json) \<times> world" where
  "request_for_json RequestsHttpClient h u s =
     (let s1 = urllib3_debug h u (record_get RequestsHttpClient FetchJson u s)
      in case requests_get h u of
           Inl e \<Rightarrow> (Inl e, s1)
         | Inr r \<Rightarrow> (decode_json r, s1))"
| "request_for_json UrllibHttpClient h u s =
     (let s1 = record_get UrllibHttpClient FetchJson u s
      in case urlopen h u of
           Inl e \<Rightarrow> (Inl e, s1)
         | Inr r \<Rightarrow> (decode_json r, s1))"

text \<open>
  \<open>download_file\<close>. The requests variant (lines 30 to 35) asks first, and only for status
  200 builds the path and writes. The urllib variant (line 54) builds the path first, then
  \<open>urlretrieve\<close> opens the URL through \<open>urlopen\<close> and, when that returns, writes the body.
  \<open>repository_name\<close> is whatever the record holds under \<open>'name'\<close>.
\<close>

fun download_file ::
  "http_client \<Rightarrow> host \<Rightarrow> string \<Rightarrow> string \<Rightarrow> json \<Rightarrow> world \<Rightarrow> (py_error + unit) \<times> world" where
  "download_file RequestsHttpClient h u directory repository_name s =
     (let s1 = urllib3_debug h u (record_get RequestsHttpClient Download u s)
      in case requests_get h u of
           Inl e \<Rightarrow> (Inl e, s1)
         | Inr request_for_file \<Rightarrow>
             if status_code request_for_file = 200 then
               (case add_str repository_name ''.zip'' of
                  Inl e \<Rightarrow> (Inl e, s1)
                | Inr file_name \<Rightarrow>
                    write_file (os_path_join directory file_name) (body request_for_file) s1)
             else (Inr (), s1))"
| "download_file UrllibHttpClient h u directory repository_name s =
     (case add_str repository_name ''.zip'' of
        Inl e \<Rightarrow> (Inl e, s)
      | Inr file_name \<Rightarrow>
          (let s1 = record_get UrllibHttpClient Download u s
           in case urlopen h u of
                Inl e \<Rightarrow> (Inl e, s1)
              | Inr fp \<Rightarrow> write_file (os_path_join directory file_name) (body fp) s1))"

text \<open>
  Lines 22 to 57: the import of \<open>requests\<close> either succeeds or raises \<open>ImportError\<close> with a
  message; the module-level name \<open>http_client\<close> is bound once, in one of the two branches.
\<close>

datatype import_outcome = Imported | ImportFailed string

definition select_http_client :: "import_outcome \<Rightarrow> world \<Rightarrow> http_client \<times> world" where
  "select_http_client imp s =
     (case imp of
        Imported \<Rightarrow> (RequestsHttpClient, s)
      | ImportFailed e \<Rightarrow>
          (UrllibHttpClient,
           py_print ''Fallback to urllib client...''
             (py_print (''Unable to initialize requests http client, '' @ e) s)))"

section \<open>The program (lines 64 to 126)\<close>

definition parse_username_arg :: "string option \<Rightarrow> world \<Rightarrow> (py_error + string) \<times> world" where
  "parse_username_arg arg s =
     (case arg of
        None \<Rightarrow> (Inl (SystemExit 2), s)
      | Some user \<Rightarrow> (Inr user, emit (''Got username '' @ user) s))"

text \<open>Line 74: the two \<open>time.strftime\<close> calls of the f-string, left to right.\<close>

definition directory_name :: "host \<Rightarrow> string \<Rightarrow> world \<Rightarrow> string \<times> world" where
  "directory_name h user s =
     (let (date, s1) = time_strftime h ''%Y-%m-%d'' s;
          (time, s2) = time_strftime h ''%H-%M-%S'' s1
      in (user @ ''-Date_'' @ date @ ''-Time_'' @ time, s2))"

text \<open>Lines 73 to 80; an error of \<open>os.makedirs\<close> leaves the function.\<close>

definition create_directory_if_not_exist :: "host \<Rightarrow> string \<Rightarrow> world \<Rightarrow> (py_error + string) \<times> world" where
  "create_directory_if_not_exist h user s =
     (let (directory, s1) = directory_name h user s;
          abs_path = abspath h directory
      in if files s1 abs_path = None then
           (let s2 = emit (''Creating directory '' @ abs_path) s1
            in case os_makedirs h abs_path (files s2) of
                 (Inl e, fs) \<Rightarrow> (Inl e, s2\<lparr>files := fs\<rparr>)
               | (Inr _, fs) \<Rightarrow> (Inr abs_path, s2\<lparr>files := fs\<rparr>))
         else (Inr abs_path, s1))"

definition page_url :: "string \<Rightarrow> nat \<Rightarrow> string" where
  "page_url user page =
     ''https://api.github.com/users/'' @ user @ ''/repos?per_page=100&page='' @ str_nat page"

definition request_for_page :: "http_client \<Rightarrow> host \<Rightarrow> string \<Rightarrow> nat \<Rightarrow> world \<Rightarrow> (py_error + json) \<times> world" where
  "request_for_page c h user page s = request_for_json c h (page_url user page) s"

text \<open>
  The \<open>while\<close> loop of lines 86 to 88, with its two variables as arguments. Nothing bounds
  the number of rounds, so the result is an option: \<open>None\<close> is a loop that never ends.
\<close>

partial_function (option) request_loop ::
  "http_client \<Rightarrow> host \<Rightarrow> string \<Rightarrow> json list \<Rightarrow> nat \<Rightarrow> world \<Rightarrow> ((py_error + json list) \<times> world) option" where
  "request_loop c h user all_pages_content page_index s =
     (case request_for_page c h user page_index s of
        (Inl e, s1) \<Rightarrow> Some (Inl e, s1)
      | (Inr page, s1) \<Rightarrow>
          if truthy page then
            (case py_iter page of
               Inl e \<Rightarrow> Some (Inl e, s1)
             | Inr items \<Rightarrow> request_loop c h user (all_pages_content @ items) (page_index + 1) s1)
          else Some (Inr all_pages_content, s1))"

definition request_for_public_repositories ::
  "http_client \<Rightarrow> host \<Rightarrow> string \<Rightarrow> world \<Rightarrow> ((py_error + json list) \<times> world) option" where
  "request_for_public_repositories c h user s = request_loop c h user [] 0 s"

fun save_repositories ::
  "http_client \<Rightarrow> host \<Rightarrow> json list \<Rightarrow> string \<Rightarrow> world \<Rightarrow> (py_error + unit) \<times> world" where
  "save_repositories c h [] directory s = (Inr (), s)"
| "save_repositories c h (repository # rest) directory s =
     (case subscript repository ''name'' of
        Inl e \<Rightarrow> (Inl e, s)
      | Inr repository_name \<Rightarrow>
          (case subscript repository ''html_url'' of
             Inl e \<Rightarrow> (Inl e, s)
           | Inr html_url \<Rightarrow>
               (let zipball_url = format_value h html_url @ ''/zipball/master/'';
                    s1 = emit (''Saving repository '' @ format_value h repository_name
                                 @ '' to '' @ directory) s
                in case download_file c h zipball_url directory repository_name s1 of
                     (Inl e, s2) \<Rightarrow> (Inl e, s2)
                   | (Inr _, s2) \<Rightarrow> save_repositories c h rest directory s2)))"

fun print_each :: "host \<Rightarrow> json list \<Rightarrow> world \<Rightarrow> (py_error + unit) \<times> world" where
  "print_each h [] s = (Inr (), s)"
| "print_each h (repository # rest) s =
     (case subscript repository ''name'' of
        Inl e \<Rightarrow> (Inl e, s)
      | Inr n \<Rightarrow> print_each h rest (emit (''Public repository: '' @ format_value h n) s))"

definition print_received_repositories :: "host \<Rightarrow> json list \<Rightarrow> world \<Rightarrow> (py_error + unit) \<times> world" where
  "print_received_repositories h repositories s =
     print_each h repositories (emit ''Got public repositories: '' s)"

definition main :: "http_client \<Rightarrow> host \<Rightarrow> string \<Rightarrow> world \<Rightarrow> ((py_error + unit) \<times> world) option" where
  "main c h user s =
     (let s1 = emit (''Http client: '' @ str_of_client h c) s
      in case create_directory_if_not_exist h user s1 of
           (Inl e, s2) \<Rightarrow> Some (Inl e, s2)
         | (Inr target_directory, s2) \<Rightarrow>
             (let s3 = emit (''Saving zipball archives in following directory: ''
                               @ target_directory) s2
              in case request_for_public_repositories c h user s3 of
                   None \<Rightarrow> None
                 | Some (Inl e, s4) \<Rightarrow> Some (Inl e, s4)
                 | Some (Inr repositories, s4) \<Rightarrow>
                     (case print_received_repositories h repositories s4 of
                        (Inl e, s5) \<Rightarrow> Some (Inl e, s5)
                      | (Inr _, s5) \<Rightarrow>
                          (case save_repositories c h repositories target_directory s5 of
                             (Inl e, s6) \<Rightarrow> Some (Inl e, s6)
                           | (Inr _, s6) \<Rightarrow> Some (Inr (), emit ''Completed'' s6)))))"

text \<open>The module body and lines 124 to 126, from process start.\<close>

definition script ::
  "host \<Rightarrow> import_outcome \<Rightarrow> string option \<Rightarrow> world \<Rightarrow> ((py_error + unit) \<times> world) option" where
  "script h imp arg s =
     (let (http_client, s1) = select_http_client imp s
      in case parse_username_arg arg s1 of
           (Inl e, s2) \<Rightarrow> Some (Inl e, s2)
         | (Inr username, s2) \<Rightarrow> main http_client h username s2)"

section \<open>Definitions used by the statements\<close>

text \<open>
  What client \<open>c\<close> leaves on standard output for one GET, the state after it has issued
  one, and the state after the listing requests for pages \<open>p\<close> to \<open>p + n - 1\<close>, in order.
\<close>

definition client_debug :: "http_client \<Rightarrow> host \<Rightarrow> string \<Rightarrow> out_line list" where
  "client_debug c h u =
     (case c of RequestsHttpClient \<Rightarrow> map Library (requests_debug h u) | UrllibHttpClient \<Rightarrow> [])"

definition issued :: "http_client \<Rightarrow> host \<Rightarrow> http_kind \<Rightarrow> string \<Rightarrow> world \<Rightarrow> world" where
  "issued c h k u s =
     s\<lparr>http_log := http_log s @ [\<lparr>via = c, kind = k, url = u\<rparr>],
       stdout := stdout s @ client_debug c h u\<rparr>"

definition fetched :: "http_client \<Rightarrow> host \<Rightarrow> string \<Rightarrow> nat \<Rightarrow> nat \<Rightarrow> world \<Rightarrow> world" where
  "fetched c h user p n s = foldl (\<lambda>s i. issued c h FetchJson (page_url user i) s) s [p..<p + n]"



subsection \<open>Concrete hosts and states\<close>

text \<open>The start of a process in the working directory \<open>/home/u\<close>.\<close>

definition fresh :: world where
  "fresh = \<lparr>files = [''/home/u'' \<mapsto> Dir], stdout = [], http_log = [], clock_reads = 0\<rparr>"

text \<open>A clock whose first reading is \<open>t1\<close> and whose later readings are \<open>t2\<close>.\<close>

definition clock_at :: "struct_time \<Rightarrow> struct_time \<Rightarrow> nat \<Rightarrow> struct_time" where
  "clock_at t1 t2 n = (if n = 0 then t1 else t2)"

definition offline :: "struct_time \<Rightarrow> struct_time \<Rightarrow> host" where
  "offline t1 t2 =
     \<lparr>network = (\<lambda>u. None), requests_debug = (\<lambda>u. []), localtime = clock_at t1 t2,
      abspath = (\<lambda>d. ''/home/u/'' @ d), mkdir_permitted = (\<lambda>p. True),
      str_of_json = (\<lambda>j. ''?''), str_of_client = (\<lambda>c. ''<client>'')\<rparr>"

definition march5_140722 :: struct_time where
  "march5_140722 = \<lparr>tm_year = 2024, tm_mon = 3, tm_mday = 5, tm_hour = 14, tm_min = 7, tm_sec = 22\<rparr>"


definition march5_235959 :: struct_time where
  "march5_235959 = \<lparr>tm_year = 2024, tm_mon = 3, tm_mday = 5, tm_hour = 23, tm_min = 59, tm_sec = 59\<rparr>"

definition march6_000000 :: struct_time where
  "march6_000000 = \<lparr>tm_year = 2024, tm_mon = 3, tm_mday = 6, tm_hour = 0, tm_min = 0, tm_sec = 0\<rparr>"

text \<open>
  A forge that knows one user, \<open>alice\<close>, with one repository on page 0, nothing on page 1
  and a stray document on page 2; \<open>archive\<close> is what it answers for the zipball.
\<close>

definition foo_record :: json where
  "foo_record = JObj [(''name'', JStr ''foo''), (''html_url'', JStr ''https://github.com/alice/foo'')]"

definition ok_json :: "json \<Rightarrow> response" where
  "ok_json j = \<lparr>status_code = 200, body = [], document = Some j\<rparr>"

definition alice_net :: "response option \<Rightarrow> string \<Rightarrow> response option" where
  "alice_net archive u =
     (if u = page_url ''alice'' 0 then Some (ok_json (JArr [foo_record]))
      else if u = page_url ''alice'' 1 then Some (ok_json (JArr []))
      else if u = page_url ''alice'' 2 then Some (ok_json (JArr [JNum 7]))
      else if u = ''https://github.com/alice/foo/zipball/master/'' then archive
      else None)"

definition host_of :: "(string \<Rightarrow> response option) \<Rightarrow> host" where
  "host_of net =
     \<lparr>network = net, requests_debug = (\<lambda>u. [''GET '' @ u]),
      localtime = (\<lambda>n. march5_140722), abspath = (\<lambda>d. ''/home/u/'' @ d),
      mkdir_permitted = (\<lambda>p. True),
      str_of_json = (\<lambda>j. ''?''), str_of_client = (\<lambda>c. ''<client>'')\<rparr>"

text \<open>The same host in a working directory in which no directory may be made.\<close>

definition read_only :: "(string \<Rightarrow> response option) \<Rightarrow> host" where
  "read_only net = (host_of net)\<lparr>mkdir_permitted := (\<lambda>p. False)\<rparr>"

definition not_found :: response where
  "not_found = \<lparr>status_code = 404, body = ''Not Found'',
                 document = Some (JObj [(''message'', JStr ''Not Found'')])\<rparr>"

text \<open>
  A forge that answers every URL with status 404 and a JSON error object, and one whose
  page 0 for \<open>bob\<close> is a JSON object and whose page 1 is \<open>null\<close>.
\<close>

definition error_net :: "string \<Rightarrow> response option" where
  "error_net u = Some not_found"

definition odd_net :: "string \<Rightarrow> response option" where
  "odd_net u =
     (if u = page_url ''bob'' 0 then Some (ok_json (JObj [(''message'', JStr ''Moved'')]))
      else if u = page_url ''bob'' 1 then Some (ok_json JNull)
      else None)"

text \<open>A state in which the directory \<open>d\<close> exists and is empty, and a successful archive answer.\<close>

definition with_dir :: "string \<Rightarrow> world" where
  "with_dir d = fresh\<lparr>files := [d \<mapsto> Dir]\<rparr>"

definition zipball :: response where
  "zipball = \<lparr>status_code = 200, body = ''PK-foo'', document = None\<rparr>"

text \<open>
  From \<open>s\<close> to \<open>s'\<close> the request log only grew, and every request added was issued by
  client \<open>c\<close>.
\<close>

definition only_via :: "http_client \<Rightarrow> world \<Rightarrow> world \<Rightarrow> bool" where
  "only_via c s s' =
     (take (length (http_log s)) (http_log s') = http_log s
      \<and> list_all (\<lambda>e. via e = c) (drop (length (http_log s)) (http_log s')))"

text \<open>
  From \<open>s\<close> to \<open>s'\<close> standard output only grew, and the program has not logged
  \<open>Completed\<close> in between.
\<close>

definition quiet :: "world \<Rightarrow> world \<Rightarrow> bool" where
  "quiet s s' =
     (take (length (stdout s)) (stdout s') = stdout s
      \<and> Logged ''Completed'' \<notin> set (drop (length (stdout s)) (stdout s')))"

text \<open>A forge on which nobody has a repository: every page is the empty list.\<close>

definition empty_net :: "string \<Rightarrow> response option" where
  "empty_net u = Some (ok_json (JArr []))"

text \<open>A forge whose user \<open>carol\<close> has one repository, listed without its \<open>html_url\<close>.\<close>

definition bar_record :: json where
  "bar_record = JObj [(''name'', JStr ''bar'')]"

definition carol_net :: "string \<Rightarrow> response option" where
  "carol_net u =
     (if u = page_url ''carol'' 0 then Some (ok_json (JArr [bar_record]))
      else if u = page_url ''carol'' 1 then Some (ok_json (JArr []))
      else None)"


section \<open>Auxiliary facts\<close>

subsection \<open>Decimal digits and the clock\<close>





lemma directory_name_eq:
  "directory_name h user s =
     (user @ ''-Date_'' @ strftime ''%Y-%m-%d'' (localtime h (clock_reads s))
        @ ''-Time_'' @ strftime ''%H-%M-%S'' (localtime h (Suc (clock_reads s))),
      s\<lparr>clock_reads := Suc (Suc (clock_reads s))\<rparr>)"
  by (simp add: directory_name_def time_strftime_def)




subsection \<open>The listing loop\<close>

lemma issued_simps [simp]:
  "files (issued c h k u s) = files s"
  "stdout (issued c h k u s) = stdout s @ client_debug c h u"
  "http_log (issued c h k u s) = http_log s @ [\<lparr>via = c, kind = k, url = u\<rparr>]"
  "clock_reads (issued c h k u s) = clock_reads s"
  by (simp_all add: issued_def)

lemma issued_requests:
  "urllib3_debug h u (record_get RequestsHttpClient k u s) = issued RequestsHttpClient h k u s"
  by (simp add: issued_def urllib3_debug_def record_get_def client_debug_def)

lemma issued_urllib: "record_get UrllibHttpClient k u s = issued UrllibHttpClient h k u s"
  by (simp add: issued_def record_get_def client_debug_def)

lemma request_for_json_snd: "snd (request_for_json c h u s) = issued c h FetchJson u s"
  by (cases c)
     (simp_all add: Let_def issued_requests issued_urllib [of FetchJson u s h] split: sum.splits)

lemma request_for_json_fst: "fst (request_for_json c h u s) = fst (request_for_json c h u w)"
  by (cases c) (simp_all add: Let_def split: sum.splits)

lemma request_for_page_eq:
  "request_for_page c h user i s =
     (fst (request_for_page c h user i w), issued c h FetchJson (page_url user i) s)"
  unfolding request_for_page_def
  using request_for_json_snd [of c h "page_url user i" s]
        request_for_json_fst [of c h "page_url user i" s w]
  by (metis prod.collapse)

lemma fetched_0: "fetched c h user p 0 s = s"
  by (simp add: fetched_def)

lemma fetched_Suc:
  "fetched c h user p (Suc n) s = fetched c h user (Suc p) n (issued c h FetchJson (page_url user p) s)"
  by (simp add: fetched_def upt_rec)

lemma request_loop_pages:
  assumes "\<forall>i<length docs. fst (request_for_page c h user (p + i) w) = Inr (docs ! i) \<and> truthy (docs ! i)"
      and "map py_iter docs = map Inr itemss"
      and "fst (request_for_page c h user (p + length docs) w) = Inr d"
      and "\<not> truthy d"
  shows "request_loop c h user acc p s =
           Some (Inr (acc @ concat itemss), fetched c h user p (Suc (length docs)) s)"
  using assms
proof (induction docs arbitrary: acc p s itemss)
  case Nil
  then show ?case
    by (subst request_loop.simps)
       (simp add: request_for_page_eq [of c h user p s w] fetched_Suc fetched_0)
next
  case (Cons x xs)
  from Cons.prems(2) obtain its rest where it: "itemss = its # rest" "py_iter x = Inr its"
    "map py_iter xs = map Inr rest"
    by (cases itemss) auto
  from Cons.prems(1) have hd: "fst (request_for_page c h user p w) = Inr x" "truthy x"
    by force+
  from Cons.prems(1) have tl: "\<forall>i<length xs. fst (request_for_page c h user (Suc p + i) w) = Inr (xs ! i) \<and> truthy (xs ! i)"
    by fastforce
  have last: "fst (request_for_page c h user (Suc p + length xs) w) = Inr d"
    using Cons.prems(3) by simp
  note IH = Cons.IH [OF tl it(3) last Cons.prems(4)]
  show ?case
    by (subst request_loop.simps)
       (simp add: request_for_page_eq [of c h user p s w] hd it IH fetched_Suc [of c h user p])
qed

lemma http_log_fetched:
  "http_log (fetched c h user p n s) =
     http_log s @ map (\<lambda>i. \<lparr>via = c, kind = FetchJson, url = page_url user i\<rparr>) [p..<p + n]"
proof (induction n arbitrary: p s)
  case 0
  then show ?case by (simp add: fetched_0)
next
  case (Suc n)
  show ?case
    by (simp add: fetched_Suc Suc.IH upt_rec [of p])
qed

lemma fetched_frame:
  "files (fetched c h user p n s) = files s"
  "clock_reads (fetched c h user p n s) = clock_reads s"
  by (induction n arbitrary: p s) (simp_all add: fetched_0 fetched_Suc)

lemma stdout_fetched:
  "stdout (fetched c h user p n s) =
     stdout s @ concat (map (\<lambda>i. client_debug c h (page_url user i)) [p..<p + n])"
proof (induction n arbitrary: p s)
  case 0
  then show ?case by (simp add: fetched_0)
next
  case (Suc n)
  show ?case
    by (simp add: fetched_Suc Suc.IH upt_rec [of p])
qed

lemma alice_page0: "fst (request_for_page c (host_of (alice_net z)) ''alice'' 0 s) = Inr (JArr [foo_record])"
  by (cases c) (simp_all add: request_for_page_def host_of_def alice_net_def requests_get_def urlopen_def
      decode_json_def ok_json_def Let_def)

lemma alice_page1: "fst (request_for_page c (host_of (alice_net z)) ''alice'' (Suc 0) s) = Inr (JArr [])"
  by (cases c) (simp_all add: request_for_page_def host_of_def alice_net_def requests_get_def urlopen_def
      decode_json_def ok_json_def Let_def page_url_def str_nat.simps digit_char_def)

lemma falsy_cases: "(\<not> truthy d) = (d \<in> {JArr [], JObj [], JStr [], JNum 0, JBool False, JNull})"
  by (cases d) auto

lemma error_net_loops:
  assumes "request_loop c h user acc p s = Some y"
  shows "c = RequestsHttpClient \<longrightarrow> h = host_of error_net \<longrightarrow> False"
proof (rule request_loop.raw_induct
    [where P = "\<lambda>c h user acc p s y. c = RequestsHttpClient \<longrightarrow> h = host_of error_net \<longrightarrow> False",
     OF _ assms], goal_cases)
  case (1 f c h user acc p s y)
  show ?case
  proof (intro impI)
    assume c: "c = RequestsHttpClient" and h: "h = host_of error_net"
    have "fst (request_for_page c h user p s) = Inr (JObj [(''message'', JStr ''Not Found'')])"
      by (simp add: c h request_for_page_def host_of_def error_net_def requests_get_def
          decode_json_def not_found_def Let_def)
    then have page: "request_for_page c h user p s = (Inr (JObj [(''message'', JStr ''Not Found'')]),
        issued c h FetchJson (page_url user p) s)"
      using request_for_page_eq [of c h user p s s] by simp
    from 1(2) have "f c h user (acc @ [JStr ''message'']) (p + 1)
        (issued c h FetchJson (page_url user p) s) = Some y"
      by (simp add: page)
    from 1(1) [OF this] c h show False by simp
  qed
qed

lemma odd_page0:
  "fst (request_for_page RequestsHttpClient (host_of odd_net) ''bob'' 0 s) = Inr (JObj [(''message'', JStr ''Moved'')])"
  by (simp add: request_for_page_def host_of_def odd_net_def requests_get_def
      decode_json_def ok_json_def Let_def)

lemma odd_page1:
  "fst (request_for_page RequestsHttpClient (host_of odd_net) ''bob'' (Suc 0) s) = Inr JNull"
  by (simp add: request_for_page_def host_of_def odd_net_def requests_get_def
      decode_json_def ok_json_def Let_def page_url_def str_nat.simps digit_char_def)

subsection \<open>Paths and downloads\<close>


lemma not_all_slashes: "directory \<noteq> [] \<Longrightarrow> last directory \<noteq> CHR ''/'' \<Longrightarrow> \<not> list_all (\<lambda>c. c = CHR ''/'') directory"
proof
  assume "directory \<noteq> []" and l: "last directory \<noteq> CHR ''/''" and "list_all (\<lambda>c. c = CHR ''/'') directory"
  then have "last directory = CHR ''/''"
    unfolding list_all_iff using last_in_set by blast
  with l show False by simp
qed

lemma dropWhile_slash_rev: "directory \<noteq> [] \<Longrightarrow> last directory \<noteq> CHR ''/'' \<Longrightarrow> dropWhile (\<lambda>c. c = CHR ''/'') (rev directory) = rev directory"
proof -
  assume d: "directory \<noteq> []" and l: "last directory \<noteq> CHR ''/''"
  then obtain x xs where r: "rev directory = x # xs" by (cases "rev directory") simp_all
  have "hd (rev directory) = last directory" using d by (simp add: hd_rev)
  with r l have "x \<noteq> CHR ''/''" by simp
  with r show ?thesis by simp
qed

lemma os_path_dirname_plain:
  assumes "directory \<noteq> []" and "last directory \<noteq> CHR ''/''" and "CHR ''/'' \<notin> set name"
  shows "os_path_dirname (directory @ ''/'' @ name) = directory"
proof -
  have r: "rev (directory @ ''/'' @ name) = rev name @ CHR ''/'' # rev directory"
    by simp
  have "\<forall>x\<in>set (rev name). x \<noteq> CHR ''/''" using assms(3) by auto
  then have 1: "dropWhile (\<lambda>c. c \<noteq> CHR ''/'') (rev name @ CHR ''/'' # rev directory) = CHR ''/'' # rev directory"
    by (simp add: dropWhile_append3)
  have hd: "rev (CHR ''/'' # rev directory) = directory @ ''/''"
    by simp
  have 2: "\<not> list_all (\<lambda>c. c = CHR ''/'') (directory @ ''/'')"
    using not_all_slashes [OF assms(1,2)] by simp
  have 3: "rstrip_slash (directory @ ''/'') = directory"
    unfolding rstrip_slash_def using dropWhile_slash_rev [OF assms(1,2)] by simp
  show ?thesis
    unfolding os_path_dirname_def r 1 hd Let_def using 2 3 by simp
qed

lemma save_repositories_append:
  "save_repositories c h (xs @ ys) directory s =
     (case save_repositories c h xs directory s of
        (Inl e, s') \<Rightarrow> (Inl e, s')
      | (Inr _, s') \<Rightarrow> save_repositories c h ys directory s')"
  by (induction xs arbitrary: s) (auto simp: Let_def split: sum.splits prod.splits)

lemma alice_zip: "network (host_of (alice_net z)) ''https://github.com/alice/foo/zipball/master/'' = z"
  by (simp add: host_of_def alice_net_def page_url_def)

lemma out_dir:
  "files (with_dir ''/home/u/out'') ''/home/u/out'' = Some Dir"
  "files (with_dir ''/home/u/out'') ''/home/u/out/foo.zip'' = None"
  "http_log (with_dir ''/home/u/out'') = []"
  by (simp_all add: with_dir_def fresh_def)


lemma save_foo_ok:
  "save_repositories RequestsHttpClient (host_of (alice_net (Some zipball)))
      [foo_record] ''/home/u/out'' (with_dir ''/home/u/out'')
   = (Inr (), snd (save_repositories RequestsHttpClient (host_of (alice_net (Some zipball)))
      [foo_record] ''/home/u/out'' (with_dir ''/home/u/out'')))"
  by (simp add: foo_record_def format_value_def Let_def requests_get_def alice_zip zipball_def
      add_str_def write_file_def os_path_join_def os_path_dirname_def rstrip_slash_def
      record_get_def urllib3_debug_def emit_def with_dir_def fresh_def)

subsection \<open>What each function changes\<close>

lemma emit_simps [simp]:
  "files (emit l s) = files s"
  "stdout (emit l s) = stdout s @ [Logged l]"
  "http_log (emit l s) = http_log s"
  "clock_reads (emit l s) = clock_reads s"
  by (simp_all add: emit_def)

lemma py_print_simps [simp]:
  "files (py_print l s) = files s"
  "stdout (py_print l s) = stdout s @ [Printed l]"
  "http_log (py_print l s) = http_log s"
  "clock_reads (py_print l s) = clock_reads s"
  by (simp_all add: py_print_def)

lemma only_via_iff:
  "only_via c s s' = (\<exists>evs. http_log s' = http_log s @ evs \<and> (\<forall>e\<in>set evs. via e = c))"
proof
  assume a: "only_via c s s'"
  then have "take (length (http_log s)) (http_log s') = http_log s"
    by (simp add: only_via_def)
  then have 1: "http_log s' = http_log s @ drop (length (http_log s)) (http_log s')"
    by (metis append_take_drop_id)
  from a have 2: "\<forall>e\<in>set (drop (length (http_log s)) (http_log s')). via e = c"
    by (simp add: only_via_def list_all_iff)
  from 1 2 show "\<exists>evs. http_log s' = http_log s @ evs \<and> (\<forall>e\<in>set evs. via e = c)"
    by blast
next
  assume "\<exists>evs. http_log s' = http_log s @ evs \<and> (\<forall>e\<in>set evs. via e = c)"
  then show "only_via c s s'"
    by (auto simp: only_via_def list_all_iff)
qed

lemma only_via_refl: "http_log s' = http_log s \<Longrightarrow> only_via c s s'"
  by (simp add: only_via_iff)

lemma only_via_trans: "only_via c s s1 \<Longrightarrow> only_via c s1 s2 \<Longrightarrow> only_via c s s2"
  unfolding only_via_iff by (metis UnE append.assoc set_append)

lemma only_via_issued: "only_via c s (issued c h k u s)"
  by (simp add: only_via_iff)

lemma quiet_iff: "quiet s s' = (\<exists>ls. stdout s' = stdout s @ ls \<and> Logged ''Completed'' \<notin> set ls)"
proof
  assume a: "quiet s s'"
  then have "take (length (stdout s)) (stdout s') = stdout s"
    by (simp add: quiet_def)
  then have 1: "stdout s' = stdout s @ drop (length (stdout s)) (stdout s')"
    by (metis append_take_drop_id)
  from a have 2: "Logged ''Completed'' \<notin> set (drop (length (stdout s)) (stdout s'))"
    by (simp add: quiet_def)
  from 1 2 show "\<exists>ls. stdout s' = stdout s @ ls \<and> Logged ''Completed'' \<notin> set ls"
    by blast
next
  assume "\<exists>ls. stdout s' = stdout s @ ls \<and> Logged ''Completed'' \<notin> set ls"
  then show "quiet s s'"
    by (auto simp: quiet_def)
qed

lemma quiet_refl: "stdout s' = stdout s \<Longrightarrow> quiet s s'"
  by (simp add: quiet_iff)

lemma quiet_trans: "quiet s s1 \<Longrightarrow> quiet s1 s2 \<Longrightarrow> quiet s s2"
  unfolding quiet_iff by (metis UnE append.assoc set_append)

lemma quiet_emit: "l \<noteq> ''Completed'' \<Longrightarrow> quiet s (emit l s)"
  by (simp add: quiet_iff)

lemma quiet_issued: "quiet s (issued c h k u s)"
  by (cases c) (auto simp: quiet_iff client_debug_def)

lemma write_file_frame:
  "stdout (snd (write_file p d s)) = stdout s"
  "http_log (snd (write_file p d s)) = http_log s"
  "clock_reads (snd (write_file p d s)) = clock_reads s"
  by (simp_all add: write_file_def)

text \<open>A download: the request is issued unless the urllib variant fails on the name first.\<close>

lemma download_file_cases:
  "snd (download_file c h u d n s) = s
   \<or> snd (download_file c h u d n s) = issued c h Download u s
   \<or> (\<exists>p b. snd (download_file c h u d n s) = snd (write_file p b (issued c h Download u s)))"
proof (cases c)
  case RequestsHttpClient
  then show ?thesis
    by (auto simp: Let_def issued_requests split: sum.splits)
next
  case UrllibHttpClient
  then show ?thesis
    by (auto simp: Let_def issued_urllib [of Download u s h] split: sum.splits)
qed

lemma download_file_frame:
  "quiet s (snd (download_file c h u d n s))"
  "only_via c s (snd (download_file c h u d n s))"
proof -
  have q: "quiet s (snd (write_file p b (issued c h Download u s)))" for p b
    using quiet_issued [of s c h Download u]
    by (simp add: quiet_iff write_file_frame)
  have v: "only_via c s (snd (write_file p b (issued c h Download u s)))" for p b
    by (simp add: only_via_iff write_file_frame)
  from download_file_cases [of c h u d n s] q quiet_issued [of s c h Download u]
  show "quiet s (snd (download_file c h u d n s))"
    by (auto simp: quiet_refl)
  from download_file_cases [of c h u d n s] v only_via_issued [of c s h Download u]
  show "only_via c s (snd (download_file c h u d n s))"
    by (auto simp: only_via_refl)
qed

lemma save_repositories_Cons:
  assumes "subscript r ''name'' = Inr n" and "subscript r ''html_url'' = Inr u"
      and "download_file c h (format_value h u @ ''/zipball/master/'') d n
             (emit (''Saving repository '' @ format_value h n @ '' to '' @ d) s) = (res, s2)"
  shows "save_repositories c h (r # rs) d s =
           (case res of Inl e \<Rightarrow> (Inl e, s2) | Inr _ \<Rightarrow> save_repositories c h rs d s2)"
  using assms by (simp add: Let_def)


lemma save_repositories_only_via: "only_via c s (snd (save_repositories c h rs d s))"
proof (induction rs arbitrary: s)
  case Nil
  show ?case by (simp add: only_via_refl)
next
  case (Cons r rs)
  show ?case
  proof (cases "subscript r ''name''")
    case (Inl e)
    then show ?thesis by (simp add: only_via_refl)
  next
    case name: (Inr n)
    show ?thesis
    proof (cases "subscript r ''html_url''")
      case (Inl e)
      with name show ?thesis by (simp add: only_via_refl)
    next
      case url: (Inr u)
      obtain res s2 where dl:
        "download_file c h (format_value h u @ ''/zipball/master/'') d n
           (emit (''Saving repository '' @ format_value h n @ '' to '' @ d) s) = (res, s2)"
        by (rule prod.exhaust)
      have "only_via c (emit (''Saving repository '' @ format_value h n @ '' to '' @ d) s) s2"
        using download_file_frame(2) [of c "emit (''Saving repository '' @ format_value h n @ '' to '' @ d) s"
            h "format_value h u @ ''/zipball/master/''" d n]
        by (simp only: dl snd_conv)
      then have a: "only_via c s s2"
        by (simp add: only_via_iff)
      note eq = save_repositories_Cons [OF name url dl, of rs]
      show ?thesis
      proof (cases res)
        case (Inl e)
        with a show ?thesis unfolding eq by simp
      next
        case (Inr x)
        with only_via_trans [OF a Cons.IH [of s2]] show ?thesis unfolding eq by simp
      qed
    qed
  qed
qed

lemma save_repositories_quiet: "quiet s (snd (save_repositories c h rs d s))"
proof (induction rs arbitrary: s)
  case Nil
  show ?case by (simp add: quiet_refl)
next
  case (Cons r rs)
  show ?case
  proof (cases "subscript r ''name''")
    case (Inl e)
    then show ?thesis by (simp add: quiet_refl)
  next
    case name: (Inr n)
    show ?thesis
    proof (cases "subscript r ''html_url''")
      case (Inl e)
      with name show ?thesis by (simp add: quiet_refl)
    next
      case url: (Inr u)
      obtain res s2 where dl:
        "download_file c h (format_value h u @ ''/zipball/master/'') d n
           (emit (''Saving repository '' @ format_value h n @ '' to '' @ d) s) = (res, s2)"
        by (rule prod.exhaust)
      have 1: "quiet s (emit (''Saving repository '' @ format_value h n @ '' to '' @ d) s)"
        by (rule quiet_emit) simp
      have 2: "quiet (emit (''Saving repository '' @ format_value h n @ '' to '' @ d) s) s2"
        using download_file_frame(1) [of "emit (''Saving repository '' @ format_value h n @ '' to '' @ d) s"
            c h "format_value h u @ ''/zipball/master/''" d n]
        by (simp only: dl snd_conv)
      from quiet_trans [OF 1 2] have a: "quiet s s2" .
      note eq = save_repositories_Cons [OF name url dl, of rs]
      show ?thesis
      proof (cases res)
        case (Inl e)
        with a show ?thesis unfolding eq by simp
      next
        case (Inr x)
        with quiet_trans [OF a Cons.IH [of s2]] show ?thesis unfolding eq by simp
      qed
    qed
  qed
qed

text \<open>Whether a download and the downloads of a list succeed depends on the files alone.\<close>

lemma write_file_files:
  assumes "files s = files w"
  shows "fst (write_file p b s) = fst (write_file p b w)"
    and "files (snd (write_file p b s)) = files (snd (write_file p b w))"
  using assms by (simp_all add: write_file_def)

lemma download_file_files:
  assumes "files s = files w"
  shows "fst (download_file c h u d n s) = fst (download_file c h u d n w)
         \<and> files (snd (download_file c h u d n s)) = files (snd (download_file c h u d n w))"
proof (cases c)
  case RequestsHttpClient
  have f: "files (issued RequestsHttpClient h Download u s) = files (issued RequestsHttpClient h Download u w)"
    using assms by simp
  from RequestsHttpClient assms write_file_files [OF f] show ?thesis
    by (auto simp: Let_def issued_requests split: sum.splits)
next
  case UrllibHttpClient
  have f: "files (issued UrllibHttpClient h Download u s) = files (issued UrllibHttpClient h Download u w)"
    using assms by simp
  from UrllibHttpClient assms write_file_files [OF f] show ?thesis
    by (auto simp: Let_def issued_urllib [of Download u _ h] split: sum.splits)
qed

lemma save_repositories_files:
  assumes "files s = files w"
  shows "fst (save_repositories c h rs d s) = fst (save_repositories c h rs d w)
         \<and> files (snd (save_repositories c h rs d s)) = files (snd (save_repositories c h rs d w))"
  using assms
proof (induction rs arbitrary: s w)
  case Nil
  then show ?case by simp
next
  case (Cons r rs)
  show ?case
  proof (cases "subscript r ''name''")
    case (Inl e)
    with Cons.prems show ?thesis by simp
  next
    case name: (Inr n)
    show ?thesis
    proof (cases "subscript r ''html_url''")
      case (Inl e)
      with name Cons.prems show ?thesis by simp
    next
      case url: (Inr u)
      let ?l = "''Saving repository '' @ format_value h n @ '' to '' @ d"
      obtain res s2 where dl:
        "download_file c h (format_value h u @ ''/zipball/master/'') d n (emit ?l s) = (res, s2)"
        by (rule prod.exhaust)
      obtain res' w2 where dl':
        "download_file c h (format_value h u @ ''/zipball/master/'') d n (emit ?l w) = (res', w2)"
        by (rule prod.exhaust)
      have "files (emit ?l s) = files (emit ?l w)" using Cons.prems by simp
      from download_file_files [OF this, of c h "format_value h u @ ''/zipball/master/''" d n]
      have same: "res' = res" "files s2 = files w2"
        by (simp_all only: dl dl' fst_conv snd_conv)
      note eq = save_repositories_Cons [OF name url dl, of rs]
      note eq' = save_repositories_Cons [OF name url dl', of rs, unfolded same(1)]
      show ?thesis
      proof (cases res)
        case (Inl e)
        with same(2) show ?thesis unfolding eq eq' by simp
      next
        case (Inr x)
        with Cons.IH [OF same(2)] show ?thesis unfolding eq eq' by simp
      qed
    qed
  qed
qed

lemma print_each_frame:
  "files (snd (print_each h rs s)) = files s \<and> http_log (snd (print_each h rs s)) = http_log s
   \<and> clock_reads (snd (print_each h rs s)) = clock_reads s"
  by (induction rs arbitrary: s) (simp_all split: sum.splits)

lemma print_each_fst: "fst (print_each h rs s) = fst (print_each h rs w)"
  by (induction rs arbitrary: s w) (simp_all split: sum.splits)

lemma print_received_repositories_fst:
  "fst (print_received_repositories h rs s) = fst (print_received_repositories h rs w)"
  unfolding print_received_repositories_def by (rule print_each_fst)

lemma print_received_repositories_frame:
  "files (snd (print_received_repositories h rs s)) = files s"
  "http_log (snd (print_received_repositories h rs s)) = http_log s"
  using print_each_frame [of h rs "emit ''Got public repositories: '' s"]
  by (simp_all add: print_received_repositories_def)

lemma print_each_quiet: "quiet s (snd (print_each h rs s))"
proof (induction rs arbitrary: s)
  case Nil
  show ?case by (simp add: quiet_refl)
next
  case (Cons r rs)
  show ?case
  proof (cases "subscript r ''name''")
    case (Inl e)
    then show ?thesis by (simp add: quiet_refl)
  next
    case (Inr n)
    have "quiet s (emit (''Public repository: '' @ format_value h n) s)"
      by (rule quiet_emit) simp
    from quiet_trans [OF this Cons.IH] Inr show ?thesis by simp
  qed
qed

lemma print_received_repositories_quiet: "quiet s (snd (print_received_repositories h rs s))"
proof -
  have "quiet s (emit ''Got public repositories: '' s)"
    by (rule quiet_emit) simp
  from quiet_trans [OF this print_each_quiet] show ?thesis
    by (simp add: print_received_repositories_def)
qed

lemma request_loop_any_state:
  assumes "request_loop c h user acc p w = Some y"
  shows "\<forall>s. \<exists>s'. request_loop c h user acc p s = Some (fst y, s')
           \<and> files s' = files s \<and> quiet s s' \<and> only_via c s s'"
proof (rule request_loop.raw_induct
    [where P = "\<lambda>c h user acc p w y. \<forall>s. \<exists>s'. request_loop c h user acc p s = Some (fst y, s')
           \<and> files s' = files s \<and> quiet s s' \<and> only_via c s s'",
     OF _ assms], goal_cases)
  case (1 f c h user acc p w y)
  show ?case
  proof
    fix s
    let ?r = "fst (request_for_page c h user p w)"
    let ?s1 = "issued c h FetchJson (page_url user p) s"
    let ?w1 = "issued c h FetchJson (page_url user p) w"
    have pw: "request_for_page c h user p w = (?r, ?w1)"
      by (rule request_for_page_eq)
    have ps: "request_for_page c h user p s = (?r, ?s1)"
      by (rule request_for_page_eq)
    have step: "only_via c s ?s1" by (rule only_via_issued)
    have hush: "quiet s ?s1" by (rule quiet_issued)
    show "\<exists>s'. request_loop c h user acc p s = Some (fst y, s')
           \<and> files s' = files s \<and> quiet s s' \<and> only_via c s s'"
    proof (cases ?r)
      case (Inl e)
      with 1(2) pw have "fst y = Inl e" by auto
      with Inl ps step hush show ?thesis
        by (subst request_loop.simps) simp
    next
      case page: (Inr page)
      show ?thesis
      proof (cases "truthy page")
        case False
        with 1(2) pw page have "fst y = Inr acc" by auto
        with page False ps step hush show ?thesis
          by (subst request_loop.simps) simp
      next
        case True
        show ?thesis
        proof (cases "py_iter page")
          case (Inl e)
          with 1(2) pw page True have "fst y = Inl e" by auto
          with page True Inl ps step hush show ?thesis
            by (subst request_loop.simps) simp
        next
          case (Inr items)
          with 1(2) pw page True have "f c h user (acc @ items) (p + 1) ?w1 = Some y" by simp
          from 1(1) [OF this] obtain s' where
            "request_loop c h user (acc @ items) (p + 1) ?s1 = Some (fst y, s')"
            "files s' = files ?s1" "quiet ?s1 s'" "only_via c ?s1 s'"
            by blast
          with page True Inr ps only_via_trans [OF step] quiet_trans [OF hush] show ?thesis
            by (subst request_loop.simps) simp
        qed
      qed
    qed
  qed
qed

lemma listing_any_state:
  assumes "request_for_public_repositories c h user w = Some (r, w')"
  shows "\<exists>s'. request_for_public_repositories c h user s = Some (r, s')
           \<and> files s' = files s \<and> quiet s s' \<and> only_via c s s'"
  using request_loop_any_state [of c h user "[]" 0 w "(r, w')"] assms
  by (simp add: request_for_public_repositories_def)

lemma listing_frame:
  assumes "request_for_public_repositories c h user s = Some (r, s')"
  shows "files s' = files s" and "quiet s s'" and "only_via c s s'"
  using listing_any_state [OF assms, of s] assms by auto

subsection \<open>Making the output directory\<close>

lemma os_mkdir_frame:
  assumes "os_mkdir h p fs = (r, fs')"
  shows "(\<forall>q. fs' q = fs q \<or> (fs q = None \<and> fs' q = Some Dir))
         \<and> (r = Inr () \<longrightarrow> fs' p = Some Dir) \<and> (\<forall>e. r = Inl e \<longrightarrow> e = OSError)"
  using assms by (auto simp: os_mkdir_def split: if_splits)

text \<open>
  \<open>os.makedirs\<close> touches no path that held something, adds directories only, and when it
  returns normally the directory asked for is there.
\<close>

lemma os_makedirs_frame:
  "(\<forall>q. snd (os_makedirs h name fs) q = fs q \<or> (fs q = None \<and> snd (os_makedirs h name fs) q = Some Dir))
   \<and> (fst (os_makedirs h name fs) = Inr () \<longrightarrow> snd (os_makedirs h name fs) name = Some Dir)
   \<and> (\<forall>e. fst (os_makedirs h name fs) = Inl e \<longrightarrow> e = OSError)"
proof (induction h name fs rule: os_makedirs.induct)
  case (1 h name fs)
  show ?case
  proof (cases "os_path_dirname name \<noteq> [] \<and> os_path_basename name \<noteq> []
         \<and> fs (os_path_dirname name) = None")
    case False
    have eq: "os_makedirs h name fs = os_mkdir h name fs"
      by (subst os_makedirs.simps, rule if_not_P, rule False)
    obtain r fs' where m: "os_mkdir h name fs = (r, fs')" by (rule prod.exhaust)
    from os_mkdir_frame [OF m] show ?thesis
      unfolding eq m by simp
  next
    case True
    obtain r1 fs1 where p: "os_makedirs h (os_path_dirname name) fs = (r1, fs1)"
      by (rule prod.exhaust)
    from 1 [OF True] have IH: "\<forall>q. fs1 q = fs q \<or> (fs q = None \<and> fs1 q = Some Dir)"
      and IHe: "\<forall>e. r1 = Inl e \<longrightarrow> e = OSError"
      unfolding p by simp_all
    show ?thesis
    proof (cases r1)
      case (Inl e)
      with True p have eq: "os_makedirs h name fs = (Inl e, fs1)"
        by (subst os_makedirs.simps) simp
      from IH IHe Inl show ?thesis unfolding eq by simp
    next
      case (Inr u)
      with True p have eq: "os_makedirs h name fs = os_mkdir h name fs1"
        by (subst os_makedirs.simps) simp
      obtain r fs' where m: "os_mkdir h name fs1 = (r, fs')" by (rule prod.exhaust)
      from os_mkdir_frame [OF m] have
        a: "\<forall>q. fs' q = fs1 q \<or> (fs1 q = None \<and> fs' q = Some Dir)"
        and b: "r = Inr () \<longrightarrow> fs' name = Some Dir" and c: "\<forall>e. r = Inl e \<longrightarrow> e = OSError"
        by simp_all
      have "\<forall>q. fs' q = fs q \<or> (fs q = None \<and> fs' q = Some Dir)"
      proof
        fix q
        from a IH have "fs' q = fs1 q \<or> (fs1 q = None \<and> fs' q = Some Dir)"
          and "fs1 q = fs q \<or> (fs q = None \<and> fs1 q = Some Dir)" by simp_all
        then show "fs' q = fs q \<or> (fs q = None \<and> fs' q = Some Dir)" by auto
      qed
      with b c show ?thesis unfolding eq m by simp
    qed
  qed
qed

lemma os_makedirs_parent_exists:
  assumes "fs (os_path_dirname name) = Some Dir" and "fs name = None"
  shows "os_makedirs h name fs =
           (if mkdir_permitted h name then (Inr (), fs(name \<mapsto> Dir)) else (Inl OSError, fs))"
  using assms by (subst os_makedirs.simps) (simp add: os_mkdir_def)

lemma directory_name_emit:
  "fst (directory_name h user (emit l s)) = fst (directory_name h user s)"
  by (simp add: directory_name_eq)

text \<open>What \<open>create_directory_if_not_exist\<close> returns and leaves, with \<open>p\<close> the absolute path.\<close>

lemma create_directory_result:
  assumes "create_directory_if_not_exist h user s = (r, s2)"
      and "p = abspath h (fst (directory_name h user s))"
  shows "files s2 = (if files s p = None then snd (os_makedirs h p (files s)) else files s)"
    and "r = (if files s p = None
              then (case fst (os_makedirs h p (files s)) of Inl e \<Rightarrow> Inl e | Inr _ \<Rightarrow> Inr p)
              else Inr p)"
    and "stdout s2 = stdout s @ (if files s p = None then [Logged (''Creating directory '' @ p)] else [])"
    and "http_log s2 = http_log s"
  using assms
  by (auto simp: create_directory_if_not_exist_def directory_name_eq Let_def
      split: if_splits prod.splits sum.splits)

lemma create_directory_returns:
  assumes "fst (create_directory_if_not_exist h user s) = Inr target"
  shows "target = abspath h (fst (directory_name h user s))"
proof -
  obtain r s2 where cd: "create_directory_if_not_exist h user s = (r, s2)" by (rule prod.exhaust)
  from create_directory_result(2) [OF cd refl] assms cd show ?thesis
    by (auto split: if_splits sum.splits)
qed

lemma create_directory_emit:
  "fst (create_directory_if_not_exist h user (emit l s)) = fst (create_directory_if_not_exist h user s)"
  "files (snd (create_directory_if_not_exist h user (emit l s)))
     = files (snd (create_directory_if_not_exist h user s))"
proof -
  let ?p = "abspath h (fst (directory_name h user s))"
  obtain r s2 where a: "create_directory_if_not_exist h user s = (r, s2)" by (rule prod.exhaust)
  obtain r' s2' where b: "create_directory_if_not_exist h user (emit l s) = (r', s2')"
    by (rule prod.exhaust)
  have p: "?p = abspath h (fst (directory_name h user (emit l s)))"
    by (simp add: directory_name_emit)
  note x = create_directory_result(1,2) [OF a refl]
  note y = create_directory_result(1,2) [OF b p]
  from x(2) y(2) show "fst (create_directory_if_not_exist h user (emit l s))
      = fst (create_directory_if_not_exist h user s)"
    unfolding a b by simp
  from x(1) y(1) show "files (snd (create_directory_if_not_exist h user (emit l s)))
     = files (snd (create_directory_if_not_exist h user s))"
    unfolding a b by simp
qed

lemma create_directory_emit_pair:
  "\<exists>s2. create_directory_if_not_exist h user (emit l s)
            = (fst (create_directory_if_not_exist h user s), s2)
        \<and> files s2 = files (snd (create_directory_if_not_exist h user s))"
proof -
  obtain r s2 where b: "create_directory_if_not_exist h user (emit l s) = (r, s2)"
    by (rule prod.exhaust)
  from create_directory_emit [of h user l s] show ?thesis
    unfolding b by simp
qed

lemma create_directory_quiet:
  "quiet s (snd (create_directory_if_not_exist h user s))"
proof -
  obtain r s2 where cd: "create_directory_if_not_exist h user s = (r, s2)"
    by (rule prod.exhaust)
  from create_directory_result(3) [OF cd refl] show ?thesis
    by (simp add: cd quiet_iff)
qed

text \<open>Nothing is lost and only directories are added; after a normal return the path exists.\<close>

lemma create_directory_files:
  assumes "create_directory_if_not_exist h user s = (r, s2)"
  shows "\<forall>q. files s2 q = files s q \<or> (files s q = None \<and> files s2 q = Some Dir)"
    and "r = Inr target \<Longrightarrow> files s2 target \<noteq> None"
    and "r = Inr target \<Longrightarrow> files s target = None \<Longrightarrow> files s2 target = Some Dir"
proof -
  let ?p = "abspath h (fst (directory_name h user s))"
  note res = create_directory_result(1,2) [OF assms refl]
  note mk = os_makedirs_frame [of h ?p "files s"]
  from res(1) mk show "\<forall>q. files s2 q = files s q \<or> (files s q = None \<and> files s2 q = Some Dir)"
    by (cases "files s ?p = None") simp_all
  have made: "files s2 target = Some Dir" if "r = Inr target" "files s target = None"
  proof -
    from that(1) assms have t: "target = ?p"
      using create_directory_returns [of h user s target] by simp
    with that res(2) have "fst (os_makedirs h ?p (files s)) = Inr ()"
      by (cases "fst (os_makedirs h ?p (files s))") simp_all
    with mk res(1) that(2) t show ?thesis by simp
  qed
  then show "r = Inr target \<Longrightarrow> files s target = None \<Longrightarrow> files s2 target = Some Dir" .
  show "files s2 target \<noteq> None" if "r = Inr target"
  proof (cases "files s target = None")
    case True
    with made that show ?thesis by simp
  next
    case False
    from that assms have t: "target = ?p"
      using create_directory_returns [of h user s target] by simp
    with False have "files s ?p \<noteq> None" by simp
    with res(1) have "files s2 = files s" by simp
    with False show ?thesis by simp
  qed
qed

subsection \<open>The run as a whole\<close>

lemma main_create_raises:
  assumes "fst (create_directory_if_not_exist h user s) = Inl e"
  shows "\<exists>s'. main c h user s = Some (Inl e, s') \<and> quiet s s' \<and> http_log s' = http_log s
           \<and> files s' = files (snd (create_directory_if_not_exist h user s))"
proof -
  let ?s1 = "emit (''Http client: '' @ str_of_client h c) s"
  from create_directory_emit_pair [of h user "''Http client: '' @ str_of_client h c" s]
  obtain s2 where cd: "create_directory_if_not_exist h user ?s1 = (Inl e, s2)"
    and f: "files s2 = files (snd (create_directory_if_not_exist h user s))"
    unfolding assms by blast
  have m: "main c h user s = Some (Inl e, s2)"
    unfolding main_def Let_def cd prod.case sum.case ..
  have q1: "quiet s ?s1" by (rule quiet_emit) simp
  have q2: "quiet ?s1 s2" using create_directory_quiet [of ?s1 h user] by (simp only: cd snd_conv)
  have l: "http_log s2 = http_log s"
    using create_directory_result(4) [OF cd refl] by simp
  from m quiet_trans [OF q1 q2] l f show ?thesis by simp
qed

lemma main_run:
  assumes "create_directory_if_not_exist h user (emit (''Http client: '' @ str_of_client h c) s) = (Inr d, s2)"
      and "request_for_public_repositories c h user
             (emit (''Saving zipball archives in following directory: '' @ d) s2) = Some (Inr repos, s4)"
      and "print_received_repositories h repos s4 = (Inr (), s5)"
      and "save_repositories c h repos d s5 = (r, s6)"
  shows "main c h user s =
           Some (case r of Inl e \<Rightarrow> (Inl e, s6) | Inr _ \<Rightarrow> (Inr (), emit ''Completed'' s6))"
  using assms by (simp add: main_def Let_def split: sum.splits)

lemma main_listing_raises:
  assumes "create_directory_if_not_exist h user (emit (''Http client: '' @ str_of_client h c) s) = (Inr d, s2)"
      and "request_for_public_repositories c h user
             (emit (''Saving zipball archives in following directory: '' @ d) s2) = Some (Inl e, s4)"
  shows "main c h user s = Some (Inl e, s4)"
  unfolding main_def Let_def assms prod.case option.case sum.case ..

lemma main_after_listing:
  assumes "request_for_public_repositories c h user w = Some (Inr repos, w')"
      and "fst (create_directory_if_not_exist h user s) = Inr target"
  shows "\<exists>s4. files s4 = files (snd (create_directory_if_not_exist h user s))
           \<and> quiet s s4 \<and> only_via c s s4
           \<and> main c h user s =
               (case print_received_repositories h repos s4 of
                  (Inl e, s5) \<Rightarrow> Some (Inl e, s5)
                | (Inr _, s5) \<Rightarrow>
                    (case save_repositories c h repos target s5 of
                       (Inl e, s6) \<Rightarrow> Some (Inl e, s6)
                     | (Inr _, s6) \<Rightarrow> Some (Inr (), emit ''Completed'' s6)))"
proof -
  let ?s1 = "emit (''Http client: '' @ str_of_client h c) s"
  from create_directory_emit_pair [of h user "''Http client: '' @ str_of_client h c" s]
  obtain s2 where cd: "create_directory_if_not_exist h user ?s1 = (Inr target, s2)"
    and f2: "files s2 = files (snd (create_directory_if_not_exist h user s))"
    unfolding assms(2) by blast
  let ?s3 = "emit (''Saving zipball archives in following directory: '' @ target) s2"
  from listing_any_state [OF assms(1), of ?s3] obtain s4 where
    l: "request_for_public_repositories c h user ?s3 = Some (Inr repos, s4)"
    and f: "files s4 = files ?s3" and q: "quiet ?s3 s4" and v: "only_via c ?s3 s4"
    by blast
  have q1: "quiet s ?s1" by (rule quiet_emit) simp
  have q2: "quiet ?s1 s2" using create_directory_quiet [of ?s1 h user] by (simp only: cd snd_conv)
  have q3: "quiet s2 ?s3" by (rule quiet_emit) simp
  have q4: "quiet s s4" using q1 q2 q3 q quiet_trans by blast
  have "http_log ?s3 = http_log s"
    using create_directory_result(4) [OF cd refl] by simp
  with v have v': "only_via c s s4" by (simp add: only_via_iff)
  have m: "main c h user s =
      (case print_received_repositories h repos s4 of
         (Inl e, s5) \<Rightarrow> Some (Inl e, s5)
       | (Inr _, s5) \<Rightarrow>
           (case save_repositories c h repos target s5 of
              (Inl e, s6) \<Rightarrow> Some (Inl e, s6)
            | (Inr _, s6) \<Rightarrow> Some (Inr (), emit ''Completed'' s6)))"
    unfolding main_def Let_def cd prod.case l option.case sum.case ..
  from f f2 q4 v' m show ?thesis by auto
qed

text \<open>
  Once the directory is there, the listing has returned and every record could be printed,
  the run ends as \<open>save_repositories\<close> ends, on whatever state holds the files of that moment.
\<close>

lemma main_outcome:
  assumes "fst (create_directory_if_not_exist h user s) = Inr target"
      and "request_for_public_repositories c h user w = Some (Inr repos, w')"
      and "fst (print_received_repositories h repos w'') = Inr ()"
      and "files s5 = files (snd (create_directory_if_not_exist h user s))"
  shows "case fst (save_repositories c h repos target s5) of
           Inl e \<Rightarrow> (\<exists>s'. main c h user s = Some (Inl e, s') \<and> quiet s s')
         | Inr _ \<Rightarrow> (\<exists>s'. main c h user s = Some (Inr (), s')
                        \<and> last (stdout s') = Logged ''Completed''
                        \<and> files s' = files (snd (save_repositories c h repos target s5)))"
proof -
  from main_after_listing [OF assms(2,1)] obtain s4 where
    f4: "files s4 = files (snd (create_directory_if_not_exist h user s))"
    and q4: "quiet s s4"
    and m: "main c h user s =
               (case print_received_repositories h repos s4 of
                  (Inl e, s5) \<Rightarrow> Some (Inl e, s5)
                | (Inr _, s5) \<Rightarrow>
                    (case save_repositories c h repos target s5 of
                       (Inl e, s6) \<Rightarrow> Some (Inl e, s6)
                     | (Inr _, s6) \<Rightarrow> Some (Inr (), emit ''Completed'' s6)))"
    by blast
  obtain pr t5 where p0: "print_received_repositories h repos s4 = (pr, t5)"
    by (rule prod.exhaust)
  have "pr = Inr ()"
    using print_received_repositories_fst [of h repos s4 w''] assms(3) by (simp add: p0)
  with p0 have p: "print_received_repositories h repos s4 = (Inr (), t5)" by simp
  have f5: "files t5 = files s5"
    using print_received_repositories_frame(1) [of h repos s4] f4 assms(4) by (simp add: p)
  have q5: "quiet s t5"
    using quiet_trans [OF q4 print_received_repositories_quiet [of s4 h repos]]
    by (simp only: p snd_conv)
  obtain sr s6 where sv: "save_repositories c h repos target t5 = (sr, s6)"
    by (rule prod.exhaust)
  from save_repositories_files [OF f5, of c h repos target]
  have same: "fst (save_repositories c h repos target s5) = sr"
    "files (snd (save_repositories c h repos target s5)) = files s6"
    by (simp_all add: sv)
  have q6: "quiet s s6"
    using quiet_trans [OF q5 save_repositories_quiet [of t5 c h repos target]]
    by (simp only: sv snd_conv)
  show ?thesis
  proof (cases sr)
    case (Inl e)
    then have "main c h user s = Some (Inl e, s6)" by (simp add: m p sv)
    with q6 Inl show ?thesis unfolding same(1) by simp
  next
    case (Inr u)
    then have "main c h user s = Some (Inr (), emit ''Completed'' s6)" by (simp add: m p sv)
    with Inr same(2) show ?thesis unfolding same(1) by simp
  qed
qed

lemma main_invariants:
  assumes "main c h user s = Some (r, s')"
  shows "only_via c s s' \<and> (\<forall>e. r = Inl e \<longrightarrow> quiet s s')"
proof (cases "fst (create_directory_if_not_exist h user s)")
  case (Inl e)
  from main_create_raises [OF Inl, of c] assms show ?thesis
    by (auto simp: only_via_refl)
next
  case (Inr target)
  let ?s1 = "emit (''Http client: '' @ str_of_client h c) s"
  from create_directory_emit_pair [of h user "''Http client: '' @ str_of_client h c" s]
  obtain s2 where cd: "create_directory_if_not_exist h user ?s1 = (Inr target, s2)"
    unfolding Inr by blast
  let ?s3 = "emit (''Saving zipball archives in following directory: '' @ target) s2"
  have q1: "quiet s ?s1" by (rule quiet_emit) simp
  have q2: "quiet ?s1 s2" using create_directory_quiet [of ?s1 h user] by (simp only: cd snd_conv)
  have q3: "quiet s2 ?s3" by (rule quiet_emit) simp
  have q: "quiet s ?s3" using q1 q2 q3 quiet_trans by blast
  have v: "http_log ?s3 = http_log s"
    using create_directory_result(4) [OF cd refl] by simp
  from assms obtain x s4 where l: "request_for_public_repositories c h user ?s3 = Some (x, s4)"
    unfolding main_def Let_def cd prod.case sum.case
    by (cases "request_for_public_repositories c h user ?s3") auto
  note lf = listing_frame [OF l]
  have q4: "quiet s s4" using quiet_trans [OF q lf(2)] .
  have v4: "only_via c s s4" using lf(3) v by (simp add: only_via_iff)
  show ?thesis
  proof (cases x)
    case (Inl e)
    with l have "request_for_public_repositories c h user ?s3 = Some (Inl e, s4)" by simp
    from main_listing_raises [OF cd this] assms have "r = Inl e" "s' = s4" by simp_all
    with q4 v4 show ?thesis by simp
  next
    case (Inr repos)
    with l have l': "request_for_public_repositories c h user ?s3 = Some (Inr repos, s4)" by simp
    obtain pr s5 where p: "print_received_repositories h repos s4 = (pr, s5)"
      by (rule prod.exhaust)
    have q5: "quiet s s5"
      using quiet_trans [OF q4 print_received_repositories_quiet [of s4 h repos]] by (simp only: p snd_conv)
    have "http_log s5 = http_log s4"
      using print_received_repositories_frame(2) [of h repos s4] by (simp add: p)
    with v4 have v5: "only_via c s s5" by (simp add: only_via_iff)
    obtain sr s6 where sv: "save_repositories c h repos target s5 = (sr, s6)"
      by (rule prod.exhaust)
    have q6: "quiet s s6"
      using quiet_trans [OF q5 save_repositories_quiet [of s5 c h repos target]] by (simp only: sv snd_conv)
    have v6: "only_via c s s6"
      using only_via_trans [OF v5 save_repositories_only_via [of c s5 h repos target]]
      by (simp only: sv snd_conv)
    have m: "main c h user s =
      (case pr of Inl e \<Rightarrow> Some (Inl e, s5)
       | Inr _ \<Rightarrow> (case sr of Inl e \<Rightarrow> Some (Inl e, s6) | Inr _ \<Rightarrow> Some (Inr (), emit ''Completed'' s6)))"
      unfolding main_def Let_def cd prod.case l' option.case sum.case p
      by (cases pr; cases sr; simp add: sv)
    show ?thesis
    proof (cases pr)
      case (Inl e)
      with m assms q5 v5 show ?thesis by simp
    next
      case pr: (Inr u)
      show ?thesis
      proof (cases sr)
        case (Inl e)
        with pr m assms q6 v6 show ?thesis by simp
      next
        case (Inr u')
        with pr m assms have "r = Inr ()" "s' = emit ''Completed'' s6" by simp_all
        with v6 show ?thesis by (simp add: only_via_iff)
      qed
    qed
  qed
qed

text \<open>A run raises when the directory cannot be made, and otherwise when the Exporter does.\<close>

lemma main_raises_with_exporter:
  assumes "request_for_public_repositories c h user w = Some (Inr repos, w')"
      and "\<And>target s5. fst (save_repositories c h repos target s5) \<noteq> Inr ()"
  shows "\<exists>e s'. main c h user s = Some (Inl e, s')"
proof (cases "fst (create_directory_if_not_exist h user s)")
  case (Inl e)
  from main_create_raises [OF Inl, of c] show ?thesis by blast
next
  case (Inr target)
  from main_after_listing [OF assms(1) Inr] obtain s4 where
    m: "main c h user s =
               (case print_received_repositories h repos s4 of
                  (Inl e, s5) \<Rightarrow> Some (Inl e, s5)
                | (Inr _, s5) \<Rightarrow>
                    (case save_repositories c h repos target s5 of
                       (Inl e, s6) \<Rightarrow> Some (Inl e, s6)
                     | (Inr _, s6) \<Rightarrow> Some (Inr (), emit ''Completed'' s6)))"
    by blast
  obtain pr s5 where p: "print_received_repositories h repos s4 = (pr, s5)"
    by (rule prod.exhaust)
  obtain sr s6 where sv: "save_repositories c h repos target s5 = (sr, s6)"
    by (rule prod.exhaust)
  from assms(2) [of target s5] sv obtain e' where sr: "sr = Inl e'" by (cases sr) auto
  show ?thesis
  proof (cases pr)
    case (Inl e)
    with m p show ?thesis by simp
  next
    case (Inr u)
    with m p sv sr show ?thesis by simp
  qed
qed

lemma save_needs_keys:
  assumes "fst (save_repositories c h rs d s) = Inr ()" and "JObj kvs \<in> set rs"
  shows "map_of kvs ''name'' \<noteq> None \<and> map_of kvs ''html_url'' \<noteq> None"
  using assms
proof (induction rs arbitrary: s)
  case Nil
  then show ?case by simp
next
  case (Cons r rs)
  from Cons.prems(1) obtain n where name: "subscript r ''name'' = Inr n"
    by (cases "subscript r ''name''") simp_all
  from Cons.prems(1) name obtain u where url: "subscript r ''html_url'' = Inr u"
    by (cases "subscript r ''html_url''") simp_all
  obtain res s2 where dl:
    "download_file c h (format_value h u @ ''/zipball/master/'') d n
       (emit (''Saving repository '' @ format_value h n @ '' to '' @ d) s) = (res, s2)"
    by (rule prod.exhaust)
  note eq = save_repositories_Cons [OF name url dl, of rs]
  from Cons.prems(1) have rest: "fst (save_repositories c h rs d s2) = Inr ()"
    unfolding eq by (cases res) simp_all
  show ?case
  proof (cases "JObj kvs = r")
    case True
    with name url show ?thesis by (auto split: option.splits)
  next
    case False
    with Cons.prems(2) have "JObj kvs \<in> set rs" by simp
    from Cons.IH [OF rest this] show ?thesis .
  qed
qed

subsection \<open>One record of the download loop\<close>

lemma record_get_simps [simp]:
  "files (record_get c k u s) = files s"
  "stdout (record_get c k u s) = stdout s"
  "http_log (record_get c k u s) = http_log s @ [\<lparr>via = c, kind = k, url = u\<rparr>]"
  "clock_reads (record_get c k u s) = clock_reads s"
  by (simp_all add: record_get_def)

lemma urllib3_debug_simps [simp]:
  "files (urllib3_debug h u s) = files s"
  "stdout (urllib3_debug h u s) = stdout s @ map Library (requests_debug h u)"
  "http_log (urllib3_debug h u s) = http_log s"
  "clock_reads (urllib3_debug h u s) = clock_reads s"
  by (simp_all add: urllib3_debug_def)

lemma download_refused:
  assumes "network h u = Some a" and "status_code a \<noteq> 200"
  shows "download_file RequestsHttpClient h u d n s
           = (Inr (), urllib3_debug h u (record_get RequestsHttpClient Download u s))"
  using assms by (simp add: requests_get_def Let_def)

lemma download_no_answer:
  assumes "network h u = None"
  shows "download_file RequestsHttpClient h u d n s
           = (Inl ConnectionError, urllib3_debug h u (record_get RequestsHttpClient Download u s))"
    and "download_file UrllibHttpClient h u d (JStr name) s
           = (Inl ConnectionError, record_get UrllibHttpClient Download u s)"
  using assms by (simp_all add: requests_get_def urlopen_def add_str_def Let_def)

lemma download_http_error:
  assumes "network h u = Some a" and "\<not> (200 \<le> status_code a \<and> status_code a < 300)"
  shows "download_file UrllibHttpClient h u d (JStr name) s
           = (Inl (HTTPError (status_code a)), record_get UrllibHttpClient Download u s)"
  using assms by (auto simp: urlopen_def add_str_def Let_def)

lemma save_swallows:
  assumes "subscript r ''name'' = Inr n" and "subscript r ''html_url'' = Inr u"
      and "network h (format_value h u @ ''/zipball/master/'') = Some a" and "status_code a \<noteq> 200"
  shows "\<exists>s2. save_repositories RequestsHttpClient h (r # rest) d s
                 = save_repositories RequestsHttpClient h rest d s2
           \<and> files s2 = files s"
proof -
  let ?s1 = "emit (''Saving repository '' @ format_value h n @ '' to '' @ d) s"
  let ?u = "format_value h u @ ''/zipball/master/''"
  note dl = download_refused [OF assms(3,4), of d n ?s1]
  from save_repositories_Cons [OF assms(1,2) dl, of rest] show ?thesis
    by (intro exI [of _ "urllib3_debug h ?u (record_get RequestsHttpClient Download ?u ?s1)"]) simp
qed

lemma save_raises:
  assumes "subscript r ''name'' = Inr n" and "subscript r ''html_url'' = Inr u"
      and "fst (download_file c h (format_value h u @ ''/zipball/master/'') d n
                  (emit (''Saving repository '' @ format_value h n @ '' to '' @ d) s)) = Inl e"
      and "files (snd (download_file c h (format_value h u @ ''/zipball/master/'') d n
                  (emit (''Saving repository '' @ format_value h n @ '' to '' @ d) s))) = files s"
  shows "\<exists>s2. save_repositories c h (r # rest) d s = (Inl e, s2) \<and> files s2 = files s"
proof -
  obtain res s2 where dl:
    "download_file c h (format_value h u @ ''/zipball/master/'') d n
       (emit (''Saving repository '' @ format_value h n @ '' to '' @ d) s) = (res, s2)"
    by (rule prod.exhaust)
  from assms(3,4) have "res = Inl e" "files s2 = files s"
    by (simp_all only: dl fst_conv snd_conv)
  with save_repositories_Cons [OF assms(1,2) dl, of rest] show ?thesis by simp
qed

lemma save_raises_download:
  assumes "subscript r ''name'' = Inr (JStr name)" and "subscript r ''html_url'' = Inr u"
      and "network h (format_value h u @ ''/zipball/master/'') = None \<and> e = ConnectionError
           \<or> c = UrllibHttpClient \<and> network h (format_value h u @ ''/zipball/master/'') = Some a
             \<and> \<not> (200 \<le> status_code a \<and> status_code a < 300) \<and> e = HTTPError (status_code a)"
  shows "\<exists>s2. save_repositories c h (r # rest) d s = (Inl e, s2) \<and> files s2 = files s"
proof (rule save_raises [OF assms(1,2)])
  let ?s1 = "emit (''Saving repository '' @ format_value h (JStr name) @ '' to '' @ d) s"
  let ?u = "format_value h u @ ''/zipball/master/''"
  from assms(3) have "download_file c h ?u d (JStr name) ?s1 = (Inl e, issued c h Download ?u ?s1)"
  proof (elim disjE conjE)
    assume n: "network h ?u = None" and e: "e = ConnectionError"
    show ?thesis
      using download_no_answer(1) [OF n, of d "JStr name" ?s1]
            download_no_answer(2) [OF n, of d name ?s1] e
      by (cases c) (simp_all only: issued_requests issued_urllib [of Download ?u ?s1 h])
  next
    assume c: "c = UrllibHttpClient" and n: "network h ?u = Some a"
      and st: "\<not> (200 \<le> status_code a \<and> status_code a < 300)" and e: "e = HTTPError (status_code a)"
    show ?thesis
      using download_http_error [OF n st, of d name ?s1] c e
      by (simp only: issued_urllib [of Download ?u ?s1 h])
  qed
  then show "fst (download_file c h ?u d (JStr name) ?s1) = Inl e"
    and "files (snd (download_file c h ?u d (JStr name) ?s1)) = files s"
    by (simp_all only: fst_conv snd_conv issued_simps emit_simps)
qed

lemma save_after:
  assumes "save_repositories c h before d s = (Inr (), s1)"
  shows "save_repositories c h (before @ rs) d s = save_repositories c h rs d s1"
  by (simp add: save_repositories_append assms)

lemma save_refused:
  assumes "\<forall>r\<in>set rs. \<exists>n u a. subscript r ''name'' = Inr n \<and> subscript r ''html_url'' = Inr u
             \<and> network h (format_value h u @ ''/zipball/master/'') = Some a \<and> status_code a \<noteq> 200"
  shows "fst (save_repositories RequestsHttpClient h rs d s) = Inr ()
         \<and> files (snd (save_repositories RequestsHttpClient h rs d s)) = files s"
  using assms
proof (induction rs arbitrary: s)
  case Nil
  show ?case by simp
next
  case (Cons r rs)
  from Cons.prems obtain n u a where name: "subscript r ''name'' = Inr n"
    and url: "subscript r ''html_url'' = Inr u"
    and net: "network h (format_value h u @ ''/zipball/master/'') = Some a" "status_code a \<noteq> 200"
    by auto
  from save_swallows [OF name url net, of rs d s] obtain s2 where
    eq: "save_repositories RequestsHttpClient h (r # rs) d s = save_repositories RequestsHttpClient h rs d s2"
    and f: "files s2 = files s"
    by blast
  from Cons.prems have "\<forall>r\<in>set rs. \<exists>n u a. subscript r ''name'' = Inr n \<and> subscript r ''html_url'' = Inr u
             \<and> network h (format_value h u @ ''/zipball/master/'') = Some a \<and> status_code a \<noteq> 200"
    by simp
  from Cons.IH [OF this, of s2] f show ?case
    unfolding eq by simp
qed

lemma print_each_named:
  assumes "\<forall>r\<in>set rs. \<exists>n. subscript r ''name'' = Inr n"
  shows "fst (print_each h rs s) = Inr ()"
  using assms by (induction rs arbitrary: s) auto

subsection \<open>Concrete runs\<close>

lemma alice_listing:
  "request_for_public_repositories c (host_of (alice_net z)) ''alice'' s
     = Some (Inr [foo_record], fetched c (host_of (alice_net z)) ''alice'' 0 2 s)"
proof -
  have 1: "\<forall>i<length [JArr [foo_record]].
      fst (request_for_page c (host_of (alice_net z)) ''alice'' (0 + i) s) = Inr ([JArr [foo_record]] ! i)
      \<and> truthy ([JArr [foo_record]] ! i)"
    by (simp add: alice_page0)
  have 2: "map py_iter [JArr [foo_record]] = map Inr [[foo_record]]" by simp
  have 3: "fst (request_for_page c (host_of (alice_net z)) ''alice'' (0 + length [JArr [foo_record]]) s)
      = Inr (JArr [])"
    by (simp add: alice_page1)
  have 4: "\<not> truthy (JArr [])" by simp
  from request_loop_pages [OF 1 2 3 4, of "[]" s] show ?thesis
    by (simp add: request_for_public_repositories_def numeral_2_eq_2)
qed

lemma foo_subscripts:
  "subscript foo_record ''name'' = Inr (JStr ''foo'')"
  "subscript foo_record ''html_url'' = Inr (JStr ''https://github.com/alice/foo'')"
  by (simp_all add: foo_record_def)

lemma foo_url: "format_value h (JStr ''https://github.com/alice/foo'') @ ''/zipball/master/''
    = ''https://github.com/alice/foo/zipball/master/''"
  by (simp add: format_value_def)

lemma foo_print: "fst (print_received_repositories h [foo_record] s) = Inr ()"
  by (simp add: print_received_repositories_def foo_record_def)

lemma save_foo_http_error:
  assumes "network h ''https://github.com/alice/foo/zipball/master/'' = Some r"
      and "\<not> (200 \<le> status_code r \<and> status_code r < 300)"
  shows "fst (save_repositories UrllibHttpClient h [foo_record] d s) = Inl (HTTPError (status_code r))"
  using assms
  by (auto simp: foo_record_def format_value_def add_str_def urlopen_def Let_def)

lemma save_foo_no_answer:
  assumes "network h ''https://github.com/alice/foo/zipball/master/'' = None"
  shows "fst (save_repositories RequestsHttpClient h [foo_record] d s) = Inl ConnectionError"
  using assms
  by (simp add: foo_record_def format_value_def requests_get_def Let_def)

lemma foo_refused:
  "\<forall>r\<in>set [foo_record]. \<exists>n u a. subscript r ''name'' = Inr n \<and> subscript r ''html_url'' = Inr u
     \<and> network (host_of (alice_net (Some not_found)))
           (format_value (host_of (alice_net (Some not_found))) u @ ''/zipball/master/'') = Some a
     \<and> status_code a \<noteq> 200"
proof -
  have "network (host_of (alice_net (Some not_found)))
           (format_value (host_of (alice_net (Some not_found))) (JStr ''https://github.com/alice/foo'')
              @ ''/zipball/master/'') = Some not_found"
    unfolding foo_url by (rule alice_zip)
  moreover have "status_code not_found \<noteq> 200" by (simp add: not_found_def)
  ultimately show ?thesis
    using foo_subscripts by (simp del: subscript.simps)
qed

text \<open>The output directory on 2024-03-05 at 14:07:22, in the working directory \<open>/home/u\<close>.\<close>

lemma march5_name:
  assumes "localtime h = (\<lambda>n. march5_140722)"
  shows "fst (directory_name h user s) = user @ ''-Date_2024-03-05-Time_14-07-22''"
proof -
  have "strftime ''%Y-%m-%d'' march5_140722 = ''2024-03-05''" by code_simp
  moreover have "strftime ''%H-%M-%S'' march5_140722 = ''14-07-22''" by code_simp
  ultimately show ?thesis
    by (simp add: directory_name_eq assms del: strftime.simps)
qed

lemma march5_create:
  assumes "localtime h = (\<lambda>n. march5_140722)" and "abspath h = (\<lambda>d. ''/home/u/'' @ d)"
      and "CHR ''/'' \<notin> set user" and "files s ''/home/u'' = Some Dir"
      and "target = ''/home/u/'' @ user @ ''-Date_2024-03-05-Time_14-07-22''"
      and "files s target = None"
  shows "fst (create_directory_if_not_exist h user s)
           = (if mkdir_permitted h target then Inr target else Inl OSError)"
    and "files (snd (create_directory_if_not_exist h user s))
           = (if mkdir_permitted h target then (files s)(target \<mapsto> Dir) else files s)"
proof -
  have p: "target = abspath h (fst (directory_name h user s))"
    by (simp add: march5_name [OF assms(1)] assms(2,5))
  have "CHR ''/'' \<notin> set (user @ ''-Date_2024-03-05-Time_14-07-22'')"
    using assms(3) by simp
  from os_path_dirname_plain [of "''/home/u''" "user @ ''-Date_2024-03-05-Time_14-07-22''", OF _ _ this]
  have "os_path_dirname target = ''/home/u''"
    by (simp add: assms(5))
  with assms(4) have "files s (os_path_dirname target) = Some Dir" by simp
  note mk = os_makedirs_parent_exists [OF this assms(6), of h]
  obtain r s2 where cd: "create_directory_if_not_exist h user s = (r, s2)" by (rule prod.exhaust)
  note res = create_directory_result(1,2) [OF cd p]
  from res(2) assms(6) mk show "fst (create_directory_if_not_exist h user s)
           = (if mkdir_permitted h target then Inr target else Inl OSError)"
    by (simp add: cd)
  from res(1) assms(6) mk show "files (snd (create_directory_if_not_exist h user s))
           = (if mkdir_permitted h target then (files s)(target \<mapsto> Dir) else files s)"
    by (simp add: cd)
qed

lemma host_of_simps:
  "localtime (host_of net) = (\<lambda>n. march5_140722)"
  "abspath (host_of net) = (\<lambda>d. ''/home/u/'' @ d)"
  "mkdir_permitted (host_of net) p"
  "network (host_of net) = net"
  "str_of_client (host_of net) c = ''<client>''"
  "requests_debug (host_of net) u = [''GET '' @ u]"
  by (simp_all add: host_of_def)

lemma read_only_simps:
  "localtime (read_only net) = (\<lambda>n. march5_140722)"
  "abspath (read_only net) = (\<lambda>d. ''/home/u/'' @ d)"
  "\<not> mkdir_permitted (read_only net) p"
  "network (read_only net) = net"
  "str_of_client (read_only net) c = ''<client>''"
  by (simp_all add: read_only_def host_of_def)

lemma fresh_simps:
  "files fresh ''/home/u'' = Some Dir"
  "files fresh (''/home/u/'' @ user @ ''-Date_2024-03-05-Time_14-07-22'') = None"
  "stdout fresh = []" "http_log fresh = []" "clock_reads fresh = 0"
  by (simp_all add: fresh_def)

lemma empty_listing:
  assumes "fst (request_for_page c h user 0 w) = Inr d" and "\<not> truthy d"
  shows "request_for_public_repositories c h user s = Some (Inr [], fetched c h user 0 (Suc 0) s)"
proof -
  have 1: "\<forall>i<length ([]::json list).
      fst (request_for_page c h user (0 + i) w) = Inr ([] ! i) \<and> truthy ([] ! i)"
    by simp
  have 2: "map py_iter [] = map Inr []" by simp
  have 3: "fst (request_for_page c h user (0 + length ([]::json list)) w) = Inr d"
    using assms(1) by simp
  from request_loop_pages [OF 1 2 3 assms(2), of "[]" s] show ?thesis
    by (simp add: request_for_public_repositories_def)
qed

lemma empty_page0:
  "network h = empty_net \<Longrightarrow> fst (request_for_page c h user 0 s) = Inr (JArr [])"
  by (cases c) (simp_all add: request_for_page_def empty_net_def requests_get_def
      urlopen_def decode_json_def ok_json_def Let_def)

lemma carol_listing:
  "request_for_public_repositories c (host_of carol_net) ''carol'' s
     = Some (Inr [bar_record], fetched c (host_of carol_net) ''carol'' 0 2 s)"
proof -
  have p0: "fst (request_for_page c (host_of carol_net) ''carol'' 0 s) = Inr (JArr [bar_record])"
    by (cases c) (simp_all add: request_for_page_def host_of_def carol_net_def requests_get_def
        urlopen_def decode_json_def ok_json_def Let_def)
  have p1: "fst (request_for_page c (host_of carol_net) ''carol'' (Suc 0) s) = Inr (JArr [])"
    by (cases c) (simp_all add: request_for_page_def host_of_def carol_net_def requests_get_def
        urlopen_def decode_json_def ok_json_def Let_def page_url_def str_nat.simps digit_char_def)
  have 1: "\<forall>i<length [JArr [bar_record]].
      fst (request_for_page c (host_of carol_net) ''carol'' (0 + i) s) = Inr ([JArr [bar_record]] ! i)
      \<and> truthy ([JArr [bar_record]] ! i)"
    by (simp add: p0)
  have 2: "map py_iter [JArr [bar_record]] = map Inr [[bar_record]]" by simp
  have 3: "fst (request_for_page c (host_of carol_net) ''carol'' (0 + length [JArr [bar_record]]) s)
      = Inr (JArr [])"
    by (simp add: p1)
  have 4: "\<not> truthy (JArr [])" by simp
  from request_loop_pages [OF 1 2 3 4, of "[]" s] show ?thesis
    by (simp add: request_for_public_repositories_def numeral_2_eq_2)
qed

lemma alice_not_found_run:
  assumes "files s ''/home/u'' = Some Dir"
      and "files s ''/home/u/alice-Date_2024-03-05-Time_14-07-22'' = None"
  shows "\<exists>s'. main UrllibHttpClient (host_of (alice_net (Some not_found))) ''alice'' s
          = Some (Inl (HTTPError 404), s')
     \<and> http_log s' = http_log s
          @ [\<lparr>via = UrllibHttpClient, kind = FetchJson, url = page_url ''alice'' 0\<rparr>,
             \<lparr>via = UrllibHttpClient, kind = FetchJson, url = page_url ''alice'' 1\<rparr>,
             \<lparr>via = UrllibHttpClient, kind = Download,
               url = ''https://github.com/alice/foo/zipball/master/''\<rparr>]"
proof -
  let ?h = "host_of (alice_net (Some not_found))"
  let ?d = "''/home/u/alice-Date_2024-03-05-Time_14-07-22''"
  have "fst (create_directory_if_not_exist ?h ''alice'' s) = Inr ?d"
    using march5_create(1) [where h = ?h and user = "''alice''" and s = s and target = ?d] assms
    by (simp add: host_of_simps)
  with create_directory_emit_pair [of ?h "''alice''" "''Http client: '' @ str_of_client ?h UrllibHttpClient" s]
  obtain s2 where cd: "create_directory_if_not_exist ?h ''alice''
      (emit (''Http client: '' @ str_of_client ?h UrllibHttpClient) s) = (Inr ?d, s2)"
    by auto
  let ?s4 = "fetched UrllibHttpClient ?h ''alice'' 0 2
      (emit (''Saving zipball archives in following directory: '' @ ?d) s2)"
  let ?s5 = "emit ''Public repository: foo'' (emit ''Got public repositories: '' ?s4)"
  let ?s6 = "record_get UrllibHttpClient Download ''https://github.com/alice/foo/zipball/master/''
      (emit (''Saving repository foo to '' @ ?d) ?s5)"
  have p: "print_received_repositories ?h [foo_record] ?s4 = (Inr (), ?s5)"
    by (simp add: print_received_repositories_def foo_record_def format_value_def)
  have sv: "save_repositories UrllibHttpClient ?h [foo_record] ?d ?s5 = (Inl (HTTPError 404), ?s6)"
    using alice_zip [of "Some not_found"]
    by (simp add: foo_record_def format_value_def add_str_def urlopen_def Let_def not_found_def)
  from main_run [OF cd alice_listing p sv]
  have m: "main UrllibHttpClient ?h ''alice'' s = Some (Inl (HTTPError 404), ?s6)"
    by simp
  have "http_log ?s6 = http_log s
          @ [\<lparr>via = UrllibHttpClient, kind = FetchJson, url = page_url ''alice'' 0\<rparr>,
             \<lparr>via = UrllibHttpClient, kind = FetchJson, url = page_url ''alice'' 1\<rparr>,
             \<lparr>via = UrllibHttpClient, kind = Download,
               url = ''https://github.com/alice/foo/zipball/master/''\<rparr>]"
    using create_directory_result(4) [OF cd refl]
    by (simp add: http_log_fetched numeral_2_eq_2)
  with m show ?thesis by blast
qed
section \<open>The claims\<close>

subsection \<open>The output directory\<close>




text \<open>
  C10. The date part of the directory name is formatted from one clock reading and the time
  part from the next one. When the first reading is 2024-03-05 23:59:59 and the second
  2024-03-06 00:00:00, the name for \<open>bob\<close> is \<open>bob-Date_2024-03-05-Time_00-00-00\<close>: the
  date of one day with a time of the next.
\<close>

theorem directory_name_two_readings:
  "fst (directory_name h username s) =
     username @ ''-Date_'' @ strftime ''%Y-%m-%d'' (localtime h (clock_reads s))
       @ ''-Time_'' @ strftime ''%H-%M-%S'' (localtime h (Suc (clock_reads s)))
   \<and> clock_reads (snd (directory_name h username s)) = clock_reads s + 2
   \<and> localtime (offline march5_235959 march6_000000) (clock_reads fresh) = march5_235959
   \<and> localtime (offline march5_235959 march6_000000) (Suc (clock_reads fresh)) = march6_000000
   \<and> fst (directory_name (offline march5_235959 march6_000000) ''bob'' fresh)
       = ''bob-Date_2024-03-05-Time_00-00-00''"
proof -
  have "fst (directory_name (offline march5_235959 march6_000000) ''bob'' fresh)
       = ''bob-Date_2024-03-05-Time_00-00-00''"
    by code_simp
  then show ?thesis
    unfolding directory_name_eq
    by (simp add: offline_def clock_at_def fresh_def)
qed

subsection \<open>The lister\<close>

text \<open>
  C1. When pages 0 to \<open>k - 1\<close> of the listing are non-empty lists and page \<open>k\<close> is the empty
  list, \<open>request_for_public_repositories\<close> returns the concatenation of pages 0 to \<open>k - 1\<close>, in
  page order and with the order inside each page kept. It asks for pages 0 to \<open>k\<close> and for no
  other, so nothing behind page \<open>k\<close> can change the result. It touches no file, and standard
  output receives nothing but what the client's library reports for those requests.
\<close>

theorem lister_concatenates_pages:
  assumes "\<forall>i<length pages. fst (request_for_page c h user i s) = Inr (JArr (pages ! i)) \<and> pages ! i \<noteq> []"
      and "fst (request_for_page c h user (length pages) s) = Inr (JArr [])"
  shows "\<exists>s'. request_for_public_repositories c h user s = Some (Inr (concat pages), s')
           \<and> http_log s' = http_log s
                @ map (\<lambda>i. \<lparr>via = c, kind = FetchJson, url = page_url user i\<rparr>) [0..<Suc (length pages)]
           \<and> files s' = files s
           \<and> stdout s' = stdout s
                @ concat (map (\<lambda>i. client_debug c h (page_url user i)) [0..<Suc (length pages)])"
proof -
  have 1: "\<forall>i<length (map JArr pages).
             fst (request_for_page c h user (0 + i) s) = Inr (map JArr pages ! i) \<and> truthy (map JArr pages ! i)"
    using assms(1) by simp
  have 2: "map py_iter (map JArr pages) = map Inr pages"
    by simp
  have 3: "fst (request_for_page c h user (0 + length (map JArr pages)) s) = Inr (JArr [])"
    using assms(2) by simp
  have "request_loop c h user [] 0 s =
          Some (Inr ([] @ concat pages), fetched c h user 0 (Suc (length (map JArr pages))) s)"
    by (rule request_loop_pages [OF 1 2 3]) simp
  then show ?thesis
    using http_log_fetched [of c h user 0 "Suc (length pages)" s]
          stdout_fetched [of c h user 0 "Suc (length pages)" s]
          fetched_frame(1) [of c h user 0 "Suc (length pages)" s]
    by (simp add: request_for_public_repositories_def)
qed

theorem lister_concatenates_pages_witness:
  "\<exists>s'. request_for_public_repositories UrllibHttpClient (host_of (alice_net None)) ''alice'' fresh
           = Some (Inr [foo_record], s')
        \<and> map url (http_log s') = [page_url ''alice'' 0, page_url ''alice'' 1]
        \<and> stdout s' = []"
proof -
  have pages: "\<forall>i<length [[foo_record]].
      fst (request_for_page UrllibHttpClient (host_of (alice_net None)) ''alice'' i fresh)
        = Inr (JArr ([[foo_record]] ! i)) \<and> [[foo_record]] ! i \<noteq> []"
    by (simp add: alice_page0)
  have empty: "fst (request_for_page UrllibHttpClient (host_of (alice_net None)) ''alice''
      (length [[foo_record]]) fresh) = Inr (JArr [])"
    by (simp add: alice_page1)
  from lister_concatenates_pages [OF pages empty] show ?thesis
    by (auto simp: fresh_def client_debug_def)
qed

text \<open>
  C5, as the code has it. The loop returns at the first page whose document is falsy: the
  empty list, and equally the empty object, the empty string, 0, \<open>false\<close> and \<open>null\<close>; it
  has then asked for that page and the pages before it, and for no other. A JSON error
  object with at least one key is truthy: it does not stop the loop, its keys are appended
  and the next page is requested.
\<close>

theorem loop_stops_at_first_falsy_page:
  assumes "\<forall>i<length docs. fst (request_for_page c h user i s) = Inr (docs ! i) \<and> truthy (docs ! i)"
      and "map py_iter docs = map Inr itemss"
      and "fst (request_for_page c h user (length docs) s) = Inr d"
      and "d \<in> {JArr [], JObj [], JStr [], JNum 0, JBool False, JNull}"
  shows "\<exists>s'. request_for_public_repositories c h user s = Some (Inr (concat itemss), s')
           \<and> http_log s' = http_log s
                @ map (\<lambda>i. \<lparr>via = c, kind = FetchJson, url = page_url user i\<rparr>) [0..<Suc (length docs)]"
proof -
  have 1: "\<forall>i<length docs. fst (request_for_page c h user (0 + i) s) = Inr (docs ! i) \<and> truthy (docs ! i)"
    using assms(1) by simp
  have 3: "fst (request_for_page c h user (0 + length docs) s) = Inr d"
    using assms(3) by simp
  have 4: "\<not> truthy d"
    using assms(4) by (simp add: falsy_cases)
  have "request_loop c h user [] 0 s =
          Some (Inr ([] @ concat itemss), fetched c h user 0 (Suc (length docs)) s)"
    by (rule request_loop_pages [OF 1 assms(2) 3 4])
  then show ?thesis
    using http_log_fetched [of c h user 0 "Suc (length docs)" s]
    by (simp add: request_for_public_repositories_def)
qed

theorem loop_stops_at_first_falsy_page_witness:
  "\<exists>s'. request_for_public_repositories RequestsHttpClient (host_of odd_net) ''bob'' fresh
           = Some (Inr [JStr ''message''], s')
        \<and> map url (http_log s') = [page_url ''bob'' 0, page_url ''bob'' 1]"
proof -
  let ?docs = "[JObj [(''message'', JStr ''Moved'')]]"
  have pages: "\<forall>i<length ?docs.
      fst (request_for_page RequestsHttpClient (host_of odd_net) ''bob'' i fresh) = Inr (?docs ! i)
      \<and> truthy (?docs ! i)"
    by (simp add: odd_page0)
  have iter: "map py_iter ?docs = map Inr [[JStr ''message'']]"
    by simp
  have stop: "fst (request_for_page RequestsHttpClient (host_of odd_net) ''bob'' (length ?docs) fresh)
      = Inr JNull"
    by (simp add: odd_page1)
  have falsy: "JNull \<in> {JArr [], JObj [], JStr [], JNum 0, JBool False, JNull}"
    by simp
  from loop_stops_at_first_falsy_page [OF pages iter stop falsy] show ?thesis
    by (auto simp: fresh_def)
qed

text \<open>
  Against C5 as stated: an endpoint that answers every page with the error object
  \<open>{"message": "Not Found"}\<close>. The object is truthy, and under the requests client the loop
  never returns.
\<close>

theorem error_document_counterexample:
  "truthy (JObj [(''message'', JStr ''Not Found'')])
   \<and> fst (request_for_page RequestsHttpClient (host_of error_net) ''alice'' 0 fresh)
        = Inr (JObj [(''message'', JStr ''Not Found'')])
   \<and> request_for_public_repositories RequestsHttpClient (host_of error_net) ''alice'' fresh = None"
proof -
  have "request_for_public_repositories RequestsHttpClient (host_of error_net) ''alice'' fresh = None"
  proof (cases "request_loop RequestsHttpClient (host_of error_net) ''alice'' [] 0 fresh")
    case None
    then show ?thesis by (simp add: request_for_public_repositories_def)
  next
    case (Some y)
    from error_net_loops [OF this] show ?thesis by simp
  qed
  then show ?thesis
    by (simp add: request_for_page_def host_of_def error_net_def requests_get_def
          decode_json_def not_found_def Let_def)
qed

subsection \<open>Downloads\<close>

text \<open>
  C3, as the code has it. When the server answers a download with a status other than 200,
  the requests variant writes nothing and raises nothing. The urllib variant has no status
  check of its own: it hands the URL to \<open>urlretrieve\<close>, which writes the body to
  \<open>{directory}/{repository_name}.zip\<close> for a status in 200..299 and raises \<open>HTTPError\<close>, writing
  nothing, for every other status.
\<close>

theorem download_file_by_status:
  assumes "network h u = Some r"
  shows "(status_code r \<noteq> 200 \<longrightarrow>
            download_file RequestsHttpClient h u directory repository_name s
              = (Inr (), urllib3_debug h u (record_get RequestsHttpClient Download u s))
            \<and> files (urllib3_debug h u (record_get RequestsHttpClient Download u s)) = files s)
       \<and> (\<not> (200 \<le> status_code r \<and> status_code r < 300) \<longrightarrow>
            download_file UrllibHttpClient h u directory (JStr name) s
              = (Inl (HTTPError (status_code r)), record_get UrllibHttpClient Download u s)
            \<and> files (record_get UrllibHttpClient Download u s) = files s)
       \<and> (200 \<le> status_code r \<and> status_code r < 300 \<longrightarrow>
            download_file UrllibHttpClient h u directory (JStr name) s
              = write_file (os_path_join directory (name @ ''.zip'')) (body r)
                  (record_get UrllibHttpClient Download u s))"
  using assms
  by (simp add: requests_get_def urlopen_def add_str_def Let_def)

theorem download_file_by_status_witness:
  "fst (download_file RequestsHttpClient (host_of (alice_net (Some not_found)))
         ''https://github.com/alice/foo/zipball/master/'' ''/home/u/out'' (JStr ''foo'')
         (with_dir ''/home/u/out'')) = Inr ()
   \<and> files (snd (download_file RequestsHttpClient (host_of (alice_net (Some not_found)))
         ''https://github.com/alice/foo/zipball/master/'' ''/home/u/out'' (JStr ''foo'')
         (with_dir ''/home/u/out''))) = files (with_dir ''/home/u/out'')
   \<and> fst (download_file UrllibHttpClient (host_of (alice_net (Some not_found)))
         ''https://github.com/alice/foo/zipball/master/'' ''/home/u/out'' (JStr ''foo'')
         (with_dir ''/home/u/out'')) = Inl (HTTPError 404)
   \<and> download_file UrllibHttpClient (host_of (alice_net (Some zipball)))
         ''https://github.com/alice/foo/zipball/master/'' ''/home/u/out'' (JStr ''foo'')
         (with_dir ''/home/u/out'')
       = write_file ''/home/u/out/foo.zip'' ''PK-foo''
           (record_get UrllibHttpClient Download ''https://github.com/alice/foo/zipball/master/''
              (with_dir ''/home/u/out''))"
proof -
  have j: "os_path_join ''/home/u/out'' ''foo.zip'' = ''/home/u/out/foo.zip''"
    by (simp add: os_path_join_def)
  show ?thesis
    using download_file_by_status [OF alice_zip [of "Some not_found"],
            of "''/home/u/out''" "JStr ''foo''" "with_dir ''/home/u/out''" "''foo''"]
          download_file_by_status [OF alice_zip [of "Some zipball"],
            of "''/home/u/out''" "JStr ''foo''" "with_dir ''/home/u/out''" "''foo''"]
    by (simp add: not_found_def zipball_def j)
qed

text \<open>
  Against C3 as stated: under the urllib variant a 404 answer is not written to
  \<open>/home/u/out/foo.zip\<close>; the call raises \<open>HTTPError\<close> and the file does not exist afterwards.
\<close>

theorem urllib_not_found_counterexample:
  "status_code not_found = 404
   \<and> network (host_of (alice_net (Some not_found))) ''https://github.com/alice/foo/zipball/master/''
        = Some not_found
   \<and> fst (download_file UrllibHttpClient (host_of (alice_net (Some not_found)))
         ''https://github.com/alice/foo/zipball/master/'' ''/home/u/out'' (JStr ''foo'')
         (with_dir ''/home/u/out'')) = Inl (HTTPError 404)
   \<and> files (snd (download_file UrllibHttpClient (host_of (alice_net (Some not_found)))
         ''https://github.com/alice/foo/zipball/master/'' ''/home/u/out'' (JStr ''foo'')
         (with_dir ''/home/u/out''))) ''/home/u/out/foo.zip'' = None"
  by (simp add: alice_zip add_str_def urlopen_def Let_def not_found_def out_dir)



subsection \<open>The run\<close>

text \<open>
  C2, as the code has it. Only one failure of a download is swallowed: under the requests
  variant, an answer with a status other than 200. Whatever the position of the record, nothing
  is written for it and the loop goes on with the next record. A download that raises is
  caught nowhere. When the server does not answer, under either variant, or answers the
  urllib variant with a status outside 200..299, \<open>save_repositories\<close> raises that error at
  this record and processes no later one. A run that has reached the download loop (the
  directory is there, the listing has returned, every record could be printed) ends exactly
  as \<open>save_repositories\<close> ends: with its exception and without \<open>Completed\<close>, or normally with
  \<open>Completed\<close> as the last line. So when every download is refused under the requests variant,
  the run returns normally, logs \<open>Completed\<close> and has written nothing but the output directory.
\<close>

theorem only_refused_downloads_are_swallowed:
  "(save_repositories RequestsHttpClient h before directory s = (Inr (), s1)
      \<and> subscript repository ''name'' = Inr n \<and> subscript repository ''html_url'' = Inr u
      \<and> network h (format_value h u @ ''/zipball/master/'') = Some a \<and> status_code a \<noteq> 200
    \<longrightarrow> (\<exists>s2. save_repositories RequestsHttpClient h (before @ repository # rest) directory s
                  = save_repositories RequestsHttpClient h rest directory s2
             \<and> files s2 = files s1))
   \<and> (save_repositories c h before directory s = (Inr (), s1)
      \<and> subscript repository ''name'' = Inr (JStr name) \<and> subscript repository ''html_url'' = Inr u
      \<and> (network h (format_value h u @ ''/zipball/master/'') = None \<and> e = ConnectionError
         \<or> c = UrllibHttpClient \<and> network h (format_value h u @ ''/zipball/master/'') = Some a
           \<and> \<not> (200 \<le> status_code a \<and> status_code a < 300) \<and> e = HTTPError (status_code a))
    \<longrightarrow> (\<exists>s2. save_repositories c h (before @ repository # rest) directory s = (Inl e, s2)
             \<and> files s2 = files s1))
   \<and> (fst (create_directory_if_not_exist h user s) = Inr target
      \<and> request_for_public_repositories c h user w = Some (Inr repositories, w')
      \<and> fst (print_received_repositories h repositories w') = Inr ()
      \<and> files s5 = files (snd (create_directory_if_not_exist h user s))
    \<longrightarrow> (case fst (save_repositories c h repositories target s5) of
            Inl e \<Rightarrow> (\<exists>s'. main c h user s = Some (Inl e, s')
                         \<and> Logged ''Completed'' \<notin> set (drop (length (stdout s)) (stdout s')))
          | Inr _ \<Rightarrow> (\<exists>s'. main c h user s = Some (Inr (), s')
                         \<and> last (stdout s') = Logged ''Completed''
                         \<and> files s' = files (snd (save_repositories c h repositories target s5)))))
   \<and> (fst (create_directory_if_not_exist h user s) = Inr target
      \<and> request_for_public_repositories RequestsHttpClient h user w = Some (Inr repositories, w')
      \<and> (\<forall>r\<in>set repositories. \<exists>n u a.
            subscript r ''name'' = Inr n \<and> subscript r ''html_url'' = Inr u
            \<and> network h (format_value h u @ ''/zipball/master/'') = Some a \<and> status_code a \<noteq> 200)
    \<longrightarrow> (\<exists>s'. main RequestsHttpClient h user s = Some (Inr (), s')
             \<and> last (stdout s') = Logged ''Completed''
             \<and> files s' = files (snd (create_directory_if_not_exist h user s))))"
proof (intro conjI impI)
  assume a: "save_repositories RequestsHttpClient h before directory s = (Inr (), s1)
      \<and> subscript repository ''name'' = Inr n \<and> subscript repository ''html_url'' = Inr u
      \<and> network h (format_value h u @ ''/zipball/master/'') = Some a \<and> status_code a \<noteq> 200"
  then have b: "save_repositories RequestsHttpClient h before directory s = (Inr (), s1)"
    and name: "subscript repository ''name'' = Inr n" and url: "subscript repository ''html_url'' = Inr u"
    and net: "network h (format_value h u @ ''/zipball/master/'') = Some a" "status_code a \<noteq> 200"
    by simp_all
  from save_swallows [OF name url net, of rest directory s1]
  show "\<exists>s2. save_repositories RequestsHttpClient h (before @ repository # rest) directory s
                  = save_repositories RequestsHttpClient h rest directory s2
             \<and> files s2 = files s1"
    unfolding save_after [OF b] .
next
  assume a: "save_repositories c h before directory s = (Inr (), s1)
      \<and> subscript repository ''name'' = Inr (JStr name) \<and> subscript repository ''html_url'' = Inr u
      \<and> (network h (format_value h u @ ''/zipball/master/'') = None \<and> e = ConnectionError
         \<or> c = UrllibHttpClient \<and> network h (format_value h u @ ''/zipball/master/'') = Some a
           \<and> \<not> (200 \<le> status_code a \<and> status_code a < 300) \<and> e = HTTPError (status_code a))"
  then have b: "save_repositories c h before directory s = (Inr (), s1)"
    and name: "subscript repository ''name'' = Inr (JStr name)"
    and url: "subscript repository ''html_url'' = Inr u"
    and err: "network h (format_value h u @ ''/zipball/master/'') = None \<and> e = ConnectionError
         \<or> c = UrllibHttpClient \<and> network h (format_value h u @ ''/zipball/master/'') = Some a
           \<and> \<not> (200 \<le> status_code a \<and> status_code a < 300) \<and> e = HTTPError (status_code a)"
    by blast+
  from save_raises_download [OF name url err, of rest directory s1]
  show "\<exists>s2. save_repositories c h (before @ repository # rest) directory s = (Inl e, s2)
             \<and> files s2 = files s1"
    unfolding save_after [OF b] .
next
  assume a: "fst (create_directory_if_not_exist h user s) = Inr target
      \<and> request_for_public_repositories c h user w = Some (Inr repositories, w')
      \<and> fst (print_received_repositories h repositories w') = Inr ()
      \<and> files s5 = files (snd (create_directory_if_not_exist h user s))"
  then have cr: "fst (create_directory_if_not_exist h user s) = Inr target"
    and li: "request_for_public_repositories c h user w = Some (Inr repositories, w')"
    and pr: "fst (print_received_repositories h repositories w') = Inr ()"
    and fs: "files s5 = files (snd (create_directory_if_not_exist h user s))"
    by simp_all
  from main_outcome [OF cr li pr fs]
  show "case fst (save_repositories c h repositories target s5) of
            Inl e \<Rightarrow> (\<exists>s'. main c h user s = Some (Inl e, s')
                         \<and> Logged ''Completed'' \<notin> set (drop (length (stdout s)) (stdout s')))
          | Inr _ \<Rightarrow> (\<exists>s'. main c h user s = Some (Inr (), s')
                         \<and> last (stdout s') = Logged ''Completed''
                         \<and> files s' = files (snd (save_repositories c h repositories target s5)))"
    by (cases "fst (save_repositories c h repositories target s5)") (auto simp: quiet_def)
next
  assume a: "fst (create_directory_if_not_exist h user s) = Inr target
      \<and> request_for_public_repositories RequestsHttpClient h user w = Some (Inr repositories, w')
      \<and> (\<forall>r\<in>set repositories. \<exists>n u a.
            subscript r ''name'' = Inr n \<and> subscript r ''html_url'' = Inr u
            \<and> network h (format_value h u @ ''/zipball/master/'') = Some a \<and> status_code a \<noteq> 200)"
  then have cr: "fst (create_directory_if_not_exist h user s) = Inr target"
    and li: "request_for_public_repositories RequestsHttpClient h user w = Some (Inr repositories, w')"
    and refused: "\<forall>r\<in>set repositories. \<exists>n u a.
            subscript r ''name'' = Inr n \<and> subscript r ''html_url'' = Inr u
            \<and> network h (format_value h u @ ''/zipball/master/'') = Some a \<and> status_code a \<noteq> 200"
    by simp_all
  let ?s5 = "snd (create_directory_if_not_exist h user s)"
  from refused have "\<forall>r\<in>set repositories. \<exists>n. subscript r ''name'' = Inr n" by blast
  then have pr: "fst (print_received_repositories h repositories w') = Inr ()"
    unfolding print_received_repositories_def by (rule print_each_named)
  note sv = save_refused [OF refused, of target ?s5]
  from main_outcome [OF cr li pr refl] sv
  show "\<exists>s'. main RequestsHttpClient h user s = Some (Inr (), s')
             \<and> last (stdout s') = Logged ''Completed''
             \<and> files s' = files (snd (create_directory_if_not_exist h user s))"
    by simp
qed

theorem only_refused_downloads_are_swallowed_witness:
  "fst (save_repositories RequestsHttpClient (host_of (alice_net (Some not_found)))
          [foo_record] ''/home/u/out'' (with_dir ''/home/u/out'')) = Inr ()
   \<and> files (snd (save_repositories RequestsHttpClient (host_of (alice_net (Some not_found)))
          [foo_record] ''/home/u/out'' (with_dir ''/home/u/out''))) = files (with_dir ''/home/u/out'')
   \<and> fst (save_repositories UrllibHttpClient (host_of (alice_net (Some not_found)))
          [foo_record] ''/home/u/out'' (with_dir ''/home/u/out'')) = Inl (HTTPError 404)
   \<and> (\<exists>s'. main UrllibHttpClient (host_of (alice_net (Some not_found))) ''alice'' fresh
              = Some (Inl (HTTPError 404), s')
         \<and> Logged ''Completed'' \<notin> set (stdout s'))
   \<and> (\<exists>s'. main RequestsHttpClient (host_of (alice_net (Some not_found))) ''alice'' fresh
              = Some (Inr (), s')
         \<and> last (stdout s') = Logged ''Completed''
         \<and> files s' = (files fresh)(''/home/u/alice-Date_2024-03-05-Time_14-07-22'' \<mapsto> Dir))"
proof -
  let ?h = "host_of (alice_net (Some not_found))"
  let ?out = "with_dir ''/home/u/out''"
  let ?d = "''/home/u/alice-Date_2024-03-05-Time_14-07-22''"
  let ?made = "snd (create_directory_if_not_exist ?h ''alice'' fresh)"
  have zip: "network ?h (format_value ?h (JStr ''https://github.com/alice/foo'') @ ''/zipball/master/'')
      = Some not_found"
    unfolding foo_url by (rule alice_zip)
  have st: "status_code not_found \<noteq> 200" "\<not> (200 \<le> status_code not_found \<and> status_code not_found < 300)"
    "status_code not_found = 404"
    by (simp_all add: not_found_def)
  have nil: "save_repositories c ?h [] ''/home/u/out'' ?out = (Inr (), ?out)" for c
    by simp
  have cr: "fst (create_directory_if_not_exist ?h ''alice'' fresh) = Inr ?d"
    and fs: "files ?made = (files fresh)(?d \<mapsto> Dir)"
    using march5_create [where h = ?h and user = "''alice''" and s = fresh and target = ?d]
      fresh_simps(1) fresh_simps(2) [of "''alice''"]
    by (simp_all add: host_of_simps)
  note claim = only_refused_downloads_are_swallowed
  have "\<exists>s2. save_repositories RequestsHttpClient ?h ([] @ foo_record # []) ''/home/u/out'' ?out
                 = save_repositories RequestsHttpClient ?h [] ''/home/u/out'' s2
           \<and> files s2 = files ?out"
    by (rule claim [where h = ?h and before = "[]" and s = ?out and ?s1.0 = ?out
          and repository = foo_record and n = "JStr ''foo''"
          and u = "JStr ''https://github.com/alice/foo''" and a = not_found,
          THEN conjunct1, THEN mp])
       (intro conjI nil foo_subscripts zip st(1))
  then obtain s2 where "save_repositories RequestsHttpClient ?h [foo_record] ''/home/u/out'' ?out = (Inr (), s2)"
    and "files s2 = files ?out"
    unfolding append_Nil save_repositories.simps(1) by blast
  then have 1: "fst (save_repositories RequestsHttpClient ?h [foo_record] ''/home/u/out'' ?out) = Inr ()
      \<and> files (snd (save_repositories RequestsHttpClient ?h [foo_record] ''/home/u/out'' ?out)) = files ?out"
    by (simp only: fst_conv snd_conv simp_thms)
  have "\<exists>s2. save_repositories UrllibHttpClient ?h ([] @ foo_record # []) ''/home/u/out'' ?out
                 = (Inl (HTTPError (status_code not_found)), s2)
           \<and> files s2 = files ?out"
    by (rule claim [where h = ?h and c = UrllibHttpClient and before = "[]" and s = ?out
          and ?s1.0 = ?out and repository = foo_record and name = "''foo''"
          and u = "JStr ''https://github.com/alice/foo''" and a = not_found
          and e = "HTTPError (status_code not_found)",
          THEN conjunct2, THEN conjunct1, THEN mp])
       (intro conjI disjI2 nil foo_subscripts zip st(2) refl)
  then obtain s2 where "save_repositories UrllibHttpClient ?h [foo_record] ''/home/u/out'' ?out
      = (Inl (HTTPError 404), s2)"
    unfolding append_Nil st(3) by blast
  then have 2: "fst (save_repositories UrllibHttpClient ?h [foo_record] ''/home/u/out'' ?out)
      = Inl (HTTPError 404)"
    by (simp only: fst_conv)
  have raised: "fst (save_repositories UrllibHttpClient ?h [foo_record] ?d ?made) = Inl (HTTPError 404)"
    using save_foo_http_error [OF alice_zip st(2), of ?d ?made] by (simp only: st(3))
  have "case fst (save_repositories UrllibHttpClient ?h [foo_record] ?d ?made) of
            Inl e \<Rightarrow> (\<exists>s'. main UrllibHttpClient ?h ''alice'' fresh = Some (Inl e, s')
                         \<and> Logged ''Completed'' \<notin> set (drop (length (stdout fresh)) (stdout s')))
          | Inr _ \<Rightarrow> (\<exists>s'. main UrllibHttpClient ?h ''alice'' fresh = Some (Inr (), s')
                         \<and> last (stdout s') = Logged ''Completed''
                         \<and> files s' = files (snd (save_repositories UrllibHttpClient ?h [foo_record] ?d ?made)))"
    by (rule claim [where h = ?h and c = UrllibHttpClient and user = "''alice''" and s = fresh
          and w = fresh and w' = "fetched UrllibHttpClient ?h ''alice'' 0 2 fresh",
          THEN conjunct2, THEN conjunct2, THEN conjunct1, THEN mp])
       (intro conjI cr alice_listing foo_print refl)
  then have 3: "\<exists>s'. main UrllibHttpClient ?h ''alice'' fresh = Some (Inl (HTTPError 404), s')
         \<and> Logged ''Completed'' \<notin> set (stdout s')"
    unfolding raised sum.case by (simp add: fresh_simps)
  have "\<exists>s'. main RequestsHttpClient ?h ''alice'' fresh = Some (Inr (), s')
         \<and> last (stdout s') = Logged ''Completed''
         \<and> files s' = files ?made"
    by (rule claim [where h = ?h and user = "''alice''" and s = fresh and w = fresh
          and w' = "fetched RequestsHttpClient ?h ''alice'' 0 2 fresh" and target = ?d
          and repositories = "[foo_record]", THEN conjunct2, THEN conjunct2, THEN conjunct2, THEN mp])
       (intro conjI cr alice_listing foo_refused)
  then have 4: "\<exists>s'. main RequestsHttpClient ?h ''alice'' fresh = Some (Inr (), s')
         \<and> last (stdout s') = Logged ''Completed''
         \<and> files s' = (files fresh)(?d \<mapsto> Dir)"
    unfolding fs .
  from 1 2 3 4 show ?thesis by blast
qed

text \<open>
  Against C2 as stated: one repository whose archive the server answers with 404 under the
  urllib variant, and the same repository with no answer at all under the requests
  variant. Both errors reach the caller of \<open>main\<close> and \<open>Completed\<close> is not logged.
\<close>

theorem download_error_counterexample:
  "(\<exists>s'. main UrllibHttpClient (host_of (alice_net (Some not_found))) ''alice'' fresh
            = Some (Inl (HTTPError 404), s')
       \<and> Logged ''Completed'' \<notin> set (stdout s'))
   \<and> (\<exists>s'. main RequestsHttpClient (host_of (alice_net None)) ''alice'' fresh
            = Some (Inl ConnectionError, s')
       \<and> Logged ''Completed'' \<notin> set (stdout s'))"
proof -
  let ?d = "''/home/u/alice-Date_2024-03-05-Time_14-07-22''"
  have cr: "fst (create_directory_if_not_exist (host_of (alice_net z)) ''alice'' fresh) = Inr ?d" for z
    using march5_create(1) [where h = "host_of (alice_net z)" and user = "''alice''" and s = fresh
        and target = ?d] fresh_simps(1) fresh_simps(2) [of "''alice''"]
    by (simp add: host_of_simps)
  let ?h = "host_of (alice_net (Some not_found))"
  have "fst (save_repositories UrllibHttpClient ?h [foo_record] ?d
               (snd (create_directory_if_not_exist ?h ''alice'' fresh))) = Inl (HTTPError 404)"
    using save_foo_http_error [OF alice_zip [of "Some not_found"],
        of ?d "snd (create_directory_if_not_exist ?h ''alice'' fresh)"]
    by (simp add: not_found_def)
  with main_outcome [where c = UrllibHttpClient and h = ?h and user = "''alice''" and s = fresh
      and w = fresh, OF cr alice_listing foo_print refl]
  have a: "\<exists>s'. main UrllibHttpClient ?h ''alice'' fresh = Some (Inl (HTTPError 404), s')
       \<and> quiet fresh s'"
    by simp
  let ?g = "host_of (alice_net None)"
  have "fst (save_repositories RequestsHttpClient ?g [foo_record] ?d
               (snd (create_directory_if_not_exist ?g ''alice'' fresh))) = Inl ConnectionError"
    by (rule save_foo_no_answer [OF alice_zip])
  with main_outcome [where c = RequestsHttpClient and h = ?g and user = "''alice''" and s = fresh
      and w = fresh, OF cr alice_listing foo_print refl]
  have b: "\<exists>s'. main RequestsHttpClient ?g ''alice'' fresh = Some (Inl ConnectionError, s')
       \<and> quiet fresh s'"
    by simp
  from a b show ?thesis
    by (simp add: quiet_def fresh_simps)
qed

text \<open>
  C7, as the code has it. Let the first page of the listing be empty (or any other falsy
  document), so that the listing yields no record. When \<open>create_directory_if_not_exist\<close>
  returns, the run returns normally: the output directory exists afterwards, as a directory
  when the path was absent; nothing that was in the file system changes and what is new is a
  directory, so no archive is written; the only request is the one for page 0; standard
  output receives the lines of the program, \<open>Completed\<close> last, and what the client's library
  reports for that request. When \<open>os.makedirs\<close> raises, the run ends with that error: no
  request is made and \<open>Completed\<close> is not logged.
\<close>

theorem no_repositories_run:
  assumes "fst (request_for_page c h user 0 s) = Inr d" and "\<not> truthy d"
  shows "(fst (create_directory_if_not_exist h user s) = Inr target \<longrightarrow>
            (\<exists>s'. main c h user s = Some (Inr (), s')
               \<and> files s' = files (snd (create_directory_if_not_exist h user s))
               \<and> files s' target \<noteq> None
               \<and> (files s target = None \<longrightarrow> files s' target = Some Dir)
               \<and> (\<forall>q. files s' q = files s q \<or> (files s q = None \<and> files s' q = Some Dir))
               \<and> stdout s' = stdout s @ [Logged (''Http client: '' @ str_of_client h c)]
                    @ (if files s target = None then [Logged (''Creating directory '' @ target)] else [])
                    @ [Logged (''Saving zipball archives in following directory: '' @ target)]
                    @ client_debug c h (page_url user 0)
                    @ [Logged ''Got public repositories: '', Logged ''Completed'']
               \<and> http_log s' = http_log s @ [\<lparr>via = c, kind = FetchJson, url = page_url user 0\<rparr>]))
       \<and> (fst (create_directory_if_not_exist h user s) = Inl e \<longrightarrow>
            (\<exists>s'. main c h user s = Some (Inl e, s')
               \<and> Logged ''Completed'' \<notin> set (drop (length (stdout s)) (stdout s'))
               \<and> http_log s' = http_log s))"
proof (intro conjI impI)
  assume cr: "fst (create_directory_if_not_exist h user s) = Inr target"
  let ?l = "''Http client: '' @ str_of_client h c"
  let ?s1 = "emit ?l s"
  from create_directory_emit_pair [of h user ?l s]
  obtain s2 where cd: "create_directory_if_not_exist h user ?s1 = (Inr target, s2)"
    and f2: "files s2 = files (snd (create_directory_if_not_exist h user s))"
    unfolding cr by blast
  have p: "target = abspath h (fst (directory_name h user ?s1))"
    using create_directory_returns [OF cr] by (simp only: directory_name_emit)
  note r = create_directory_result(3,4) [OF cd p]
  obtain r0 s0 where cd0: "create_directory_if_not_exist h user s = (r0, s0)"
    by (rule prod.exhaust)
  with cr have r0: "r0 = Inr target" by simp
  from f2 cd0 have f0: "files s2 = files s0" by simp
  note fr = create_directory_files(1) [OF cd0] create_directory_files(2) [OF cd0 r0]
    create_directory_files(3) [OF cd0 r0]
  let ?s3 = "emit (''Saving zipball archives in following directory: '' @ target) s2"
  let ?s4 = "fetched c h user 0 (Suc 0) ?s3"
  let ?s5 = "emit ''Got public repositories: '' ?s4"
  have l: "request_for_public_repositories c h user ?s3 = Some (Inr [], ?s4)"
    by (rule empty_listing [OF assms(1,2)])
  have pr: "print_received_repositories h [] ?s4 = (Inr (), ?s5)"
    by (simp add: print_received_repositories_def)
  have sv: "save_repositories c h [] target ?s5 = (Inr (), ?s5)"
    by simp
  from main_run [OF cd l pr sv] have m: "main c h user s = Some (Inr (), emit ''Completed'' ?s5)"
    by simp
  have f: "files (emit ''Completed'' ?s5) = files s0"
    using f0 by (simp add: fetched_frame)
  have o: "stdout (emit ''Completed'' ?s5) = stdout s @ [Logged (''Http client: '' @ str_of_client h c)]
                @ (if files s target = None then [Logged (''Creating directory '' @ target)] else [])
                @ [Logged (''Saving zipball archives in following directory: '' @ target)]
                @ client_debug c h (page_url user 0)
                @ [Logged ''Got public repositories: '', Logged ''Completed'']"
    using r(1) by (simp add: stdout_fetched)
  have g: "http_log (emit ''Completed'' ?s5)
      = http_log s @ [\<lparr>via = c, kind = FetchJson, url = page_url user 0\<rparr>]"
    using r(2) by (simp add: http_log_fetched)
  from fr(2) have e1: "files (emit ''Completed'' ?s5) target \<noteq> None"
    unfolding f .
  from fr(3) have e2: "files s target = None \<longrightarrow> files (emit ''Completed'' ?s5) target = Some Dir"
    unfolding f by blast
  from fr(1) have e3: "\<forall>q. files (emit ''Completed'' ?s5) q = files s q
      \<or> (files s q = None \<and> files (emit ''Completed'' ?s5) q = Some Dir)"
    unfolding f .
  have e0: "files (emit ''Completed'' ?s5) = files (snd (create_directory_if_not_exist h user s))"
    unfolding f by (simp only: cd0 snd_conv)
  from m e0 e1 e2 e3 o g
  show "\<exists>s'. main c h user s = Some (Inr (), s')
               \<and> files s' = files (snd (create_directory_if_not_exist h user s))
               \<and> files s' target \<noteq> None
               \<and> (files s target = None \<longrightarrow> files s' target = Some Dir)
               \<and> (\<forall>q. files s' q = files s q \<or> (files s q = None \<and> files s' q = Some Dir))
               \<and> stdout s' = stdout s @ [Logged (''Http client: '' @ str_of_client h c)]
                    @ (if files s target = None then [Logged (''Creating directory '' @ target)] else [])
                    @ [Logged (''Saving zipball archives in following directory: '' @ target)]
                    @ client_debug c h (page_url user 0)
                    @ [Logged ''Got public repositories: '', Logged ''Completed'']
               \<and> http_log s' = http_log s @ [\<lparr>via = c, kind = FetchJson, url = page_url user 0\<rparr>]"
    by (intro exI [of _ "emit ''Completed'' ?s5"] conjI)
next
  assume "fst (create_directory_if_not_exist h user s) = Inl e"
  from main_create_raises [OF this, of c]
  show "\<exists>s'. main c h user s = Some (Inl e, s')
               \<and> Logged ''Completed'' \<notin> set (drop (length (stdout s)) (stdout s'))
               \<and> http_log s' = http_log s"
    by (auto simp: quiet_def)
qed

theorem no_repositories_run_witness:
  "(\<exists>s'. main RequestsHttpClient (host_of empty_net) ''nobody'' fresh = Some (Inr (), s')
     \<and> files s' = (files fresh)(''/home/u/nobody-Date_2024-03-05-Time_14-07-22'' \<mapsto> Dir)
     \<and> stdout s' = [Logged ''Http client: <client>'',
          Logged ''Creating directory /home/u/nobody-Date_2024-03-05-Time_14-07-22'',
          Logged ''Saving zipball archives in following directory: /home/u/nobody-Date_2024-03-05-Time_14-07-22'',
          Library ''GET https://api.github.com/users/nobody/repos?per_page=100&page=0'',
          Logged ''Got public repositories: '', Logged ''Completed'']
     \<and> map kind (http_log s') = [FetchJson])
   \<and> (\<exists>s'. main UrllibHttpClient (read_only empty_net) ''nobody'' fresh = Some (Inl OSError, s')
     \<and> http_log s' = [])"
proof -
  let ?d = "''/home/u/nobody-Date_2024-03-05-Time_14-07-22''"
  have falsy: "\<not> truthy (JArr [])" by simp
  have made: "fst (create_directory_if_not_exist (host_of empty_net) ''nobody'' fresh) = Inr ?d"
    using march5_create(1) [where h = "host_of empty_net" and user = "''nobody''" and s = fresh
        and target = ?d] fresh_simps(1) fresh_simps(2) [of "''nobody''"]
    by (simp add: host_of_simps)
  have failed: "fst (create_directory_if_not_exist (read_only empty_net) ''nobody'' fresh) = Inl OSError"
    using march5_create(1) [where h = "read_only empty_net" and user = "''nobody''" and s = fresh
        and target = ?d] fresh_simps(1) fresh_simps(2) [of "''nobody''"]
    by (simp add: read_only_simps)
  have page: "page_url ''nobody'' 0 = ''https://api.github.com/users/nobody/repos?per_page=100&page=0''"
    by (simp add: page_url_def str_nat.simps digit_char_def)
  have absent: "files fresh ?d = None"
    using fresh_simps(2) [of "''nobody''"] by simp
  have fs: "files (snd (create_directory_if_not_exist (host_of empty_net) ''nobody'' fresh))
      = (files fresh)(?d \<mapsto> Dir)"
    using march5_create(2) [where h = "host_of empty_net" and user = "''nobody''" and s = fresh
        and target = ?d] fresh_simps(1) fresh_simps(2) [of "''nobody''"]
    by (simp add: host_of_simps)
  from no_repositories_run [where c = RequestsHttpClient and h = "host_of empty_net"
      and user = "''nobody''" and s = fresh and target = ?d,
      OF empty_page0 [OF host_of_simps(4)] falsy] made
  obtain s' where m: "main RequestsHttpClient (host_of empty_net) ''nobody'' fresh = Some (Inr (), s')"
    and dir: "files s' = files (snd (create_directory_if_not_exist (host_of empty_net) ''nobody'' fresh))"
    and out: "stdout s' = stdout fresh
         @ [Logged (''Http client: '' @ str_of_client (host_of empty_net) RequestsHttpClient)]
         @ (if files fresh ?d = None then [Logged (''Creating directory '' @ ?d)] else [])
         @ [Logged (''Saving zipball archives in following directory: '' @ ?d)]
         @ client_debug RequestsHttpClient (host_of empty_net) (page_url ''nobody'' 0)
         @ [Logged ''Got public repositories: '', Logged ''Completed'']"
    and log: "http_log s' = http_log fresh
         @ [\<lparr>via = RequestsHttpClient, kind = FetchJson, url = page_url ''nobody'' 0\<rparr>]"
    by blast
  have 1: "\<exists>s'. main RequestsHttpClient (host_of empty_net) ''nobody'' fresh = Some (Inr (), s')
     \<and> files s' = (files fresh)(?d \<mapsto> Dir)
     \<and> stdout s' = [Logged ''Http client: <client>'',
          Logged ''Creating directory /home/u/nobody-Date_2024-03-05-Time_14-07-22'',
          Logged ''Saving zipball archives in following directory: /home/u/nobody-Date_2024-03-05-Time_14-07-22'',
          Library ''GET https://api.github.com/users/nobody/repos?per_page=100&page=0'',
          Logged ''Got public repositories: '', Logged ''Completed'']
     \<and> map kind (http_log s') = [FetchJson]"
    using m dir out log absent
    by (simp add: fs page client_debug_def host_of_simps fresh_simps)
  from no_repositories_run [where c = UrllibHttpClient and h = "read_only empty_net"
      and user = "''nobody''" and s = fresh and e = OSError,
      OF empty_page0 [OF read_only_simps(4)] falsy] failed
  have 2: "\<exists>s'. main UrllibHttpClient (read_only empty_net) ''nobody'' fresh = Some (Inl OSError, s')
     \<and> http_log s' = []"
    by (auto simp: fresh_simps)
  from 1 2 show ?thesis by blast
qed

text \<open>
  Against C7 as stated: a user without repositories (page 0 of the listing is the empty
  list), run in a working directory in which no directory may be made. \<open>os.makedirs\<close>
  raises, the run ends with \<open>OSError\<close> before any request: the output directory is not
  created and \<open>Completed\<close> is not logged.
\<close>

theorem unwritable_directory_counterexample:
  "fst (request_for_page RequestsHttpClient (read_only empty_net) ''nobody'' 0 fresh) = Inr (JArr [])
   \<and> (\<exists>s'. main RequestsHttpClient (read_only empty_net) ''nobody'' fresh = Some (Inl OSError, s')
        \<and> files s' = files fresh
        \<and> files s' ''/home/u/nobody-Date_2024-03-05-Time_14-07-22'' = None
        \<and> Logged ''Completed'' \<notin> set (stdout s')
        \<and> http_log s' = [])"
proof -
  let ?d = "''/home/u/nobody-Date_2024-03-05-Time_14-07-22''"
  let ?h = "read_only empty_net"
  note mk = march5_create [where h = ?h and user = "''nobody''" and s = fresh and target = ?d]
  have failed: "fst (create_directory_if_not_exist ?h ''nobody'' fresh) = Inl OSError"
    using mk(1) fresh_simps(1) fresh_simps(2) [of "''nobody''"]
    by (simp add: read_only_simps)
  have same: "files (snd (create_directory_if_not_exist ?h ''nobody'' fresh)) = files fresh"
    using mk(2) fresh_simps(1) fresh_simps(2) [of "''nobody''"]
    by (simp add: read_only_simps)
  have absent: "files fresh ?d = None"
    using fresh_simps(2) [of "''nobody''"] by simp
  from main_create_raises [OF failed, of RequestsHttpClient] same absent
  have "\<exists>s'. main RequestsHttpClient ?h ''nobody'' fresh = Some (Inl OSError, s')
        \<and> files s' = files fresh \<and> files s' ?d = None
        \<and> Logged ''Completed'' \<notin> set (stdout s') \<and> http_log s' = []"
    by (auto simp: quiet_def fresh_simps)
  with empty_page0 [OF read_only_simps(4), of RequestsHttpClient "''nobody''" fresh]
  show ?thesis by simp
qed

text \<open>
  C8. The module body binds \<open>http_client\<close> once, before anything else runs: to the requests
  variant when the import succeeds, printing nothing, and to the urllib variant when it
  fails, after printing the two lines of the fallback notice on standard output. Every
  request of the run that follows, for a listing page or for an archive, is issued by that
  variant.
\<close>

theorem one_client_per_run:
  "fst (select_http_client Imported s) = RequestsHttpClient
   \<and> stdout (snd (select_http_client Imported s)) = stdout s
   \<and> fst (select_http_client (ImportFailed msg) s) = UrllibHttpClient
   \<and> stdout (snd (select_http_client (ImportFailed msg) s))
       = stdout s @ [Printed (''Unable to initialize requests http client, '' @ msg),
                     Printed ''Fallback to urllib client...'']
   \<and> (script h imp arg s = Some (r, s') \<longrightarrow> only_via (fst (select_http_client imp s)) s s')"
proof -
  have run: "only_via (fst (select_http_client imp s)) s s'" if a: "script h imp arg s = Some (r, s')"
  proof -
    obtain c s1 where sel: "select_http_client imp s = (c, s1)" by (rule prod.exhaust)
    have l1: "http_log s1 = http_log s"
      using sel by (cases imp) (auto simp: select_http_client_def)
    show ?thesis
    proof (cases arg)
      case None
      with a sel have "s' = s1"
        by (simp add: script_def parse_username_arg_def)
      with l1 sel show ?thesis by (simp add: only_via_iff)
    next
      case (Some user)
      with a sel have "main c h user (emit (''Got username '' @ user) s1) = Some (r, s')"
        by (simp add: script_def parse_username_arg_def)
      from main_invariants [OF this] l1 sel show ?thesis
        by (simp add: only_via_iff)
    qed
  qed
  then show ?thesis
    by (simp add: select_http_client_def)
qed

theorem one_client_per_run_witness:
  "\<exists>r s'. script (host_of (alice_net (Some not_found))) (ImportFailed ''No module named requests'')
        (Some ''alice'') fresh = Some (r, s')
     \<and> only_via UrllibHttpClient fresh s'
     \<and> map kind (http_log s') = [FetchJson, FetchJson, Download]"
proof -
  let ?h = "host_of (alice_net (Some not_found))"
  let ?s2 = "emit (''Got username '' @ ''alice'')
      (snd (select_http_client (ImportFailed ''No module named requests'') fresh))"
  have sc: "script ?h (ImportFailed ''No module named requests'') (Some ''alice'') fresh
      = main UrllibHttpClient ?h ''alice'' ?s2"
    by (simp add: script_def select_http_client_def parse_username_arg_def)
  have l: "http_log ?s2 = []"
    by (simp add: select_http_client_def fresh_def)
  have f: "files ?s2 ''/home/u'' = Some Dir"
    "files ?s2 ''/home/u/alice-Date_2024-03-05-Time_14-07-22'' = None"
    by (simp_all add: select_http_client_def fresh_def)
  from alice_not_found_run [OF f] obtain s' where
    m: "main UrllibHttpClient ?h ''alice'' ?s2 = Some (Inl (HTTPError 404), s')"
    and k: "map kind (http_log s') = [FetchJson, FetchJson, Download]"
    unfolding l by auto
  from sc m have run: "script ?h (ImportFailed ''No module named requests'') (Some ''alice'') fresh
      = Some (Inl (HTTPError 404), s')"
    by simp
  have sel: "fst (select_http_client (ImportFailed ''No module named requests'') fresh) = UrllibHttpClient"
    by (simp add: select_http_client_def)
  from one_client_per_run [of fresh "''No module named requests''" ?h
      "ImportFailed ''No module named requests''" "Some ''alice''" "Inl (HTTPError 404)" s'] run sel
  have v: "only_via UrllibHttpClient fresh s'" by simp
  show ?thesis
    by (rule exI [of _ "Inl (HTTPError 404)"], rule exI [of _ s']) (simp add: run v k)
qed

text \<open>
  C9. A record that is a JSON object without the key \<open>name\<close> or without the key \<open>html_url\<close>
  makes \<open>save_repositories\<close> raise \<open>KeyError\<close> for the first missing key as soon as the
  records before it have been processed; the state is the one those records left, so the
  record is not skipped and nothing after it is processed. No caller catches the error: a
  run whose listing contains such a record ends with an exception and never logs
  \<open>Completed\<close>.
\<close>

theorem missing_key_raises_key_error:
  assumes "map_of kvs ''name'' = None \<or> map_of kvs ''html_url'' = None"
  shows "(save_repositories c h before directory s = (Inr (), s1) \<longrightarrow>
            save_repositories c h (before @ JObj kvs # rest) directory s
              = (Inl (KeyError (if map_of kvs ''name'' = None then ''name'' else ''html_url'')), s1))
       \<and> (request_for_public_repositories c h user w = Some (Inr repositories, w')
            \<and> JObj kvs \<in> set repositories \<longrightarrow>
            (\<exists>e s'. main c h user s = Some (Inl e, s')
               \<and> Logged ''Completed'' \<notin> set (drop (length (stdout s)) (stdout s'))))"
proof (intro conjI impI)
  assume "save_repositories c h before directory s = (Inr (), s1)"
  with assms show "save_repositories c h (before @ JObj kvs # rest) directory s
              = (Inl (KeyError (if map_of kvs ''name'' = None then ''name'' else ''html_url'')), s1)"
    by (auto simp: save_repositories_append split: option.splits)
next
  assume a: "request_for_public_repositories c h user w = Some (Inr repositories, w')
            \<and> JObj kvs \<in> set repositories"
  then have li: "request_for_public_repositories c h user w = Some (Inr repositories, w')"
    and mem: "JObj kvs \<in> set repositories"
    by simp_all
  have "fst (save_repositories c h repositories target s5) \<noteq> Inr ()" for target s5
  proof
    assume "fst (save_repositories c h repositories target s5) = Inr ()"
    from save_needs_keys [OF this mem] assms show False by auto
  qed
  from main_raises_with_exporter [OF li this, of s]
  obtain e s' where r: "main c h user s = Some (Inl e, s')" by blast
  from main_invariants [OF r]
  have "Logged ''Completed'' \<notin> set (drop (length (stdout s)) (stdout s'))"
    by (simp add: quiet_def)
  with r show "\<exists>e s'. main c h user s = Some (Inl e, s')
               \<and> Logged ''Completed'' \<notin> set (drop (length (stdout s)) (stdout s'))"
    by blast
qed

theorem missing_key_raises_key_error_witness:
  "fst (save_repositories RequestsHttpClient (host_of (alice_net (Some zipball)))
      ([foo_record] @ JObj [(''name'', JStr ''bar'')] # [foo_record])
      ''/home/u/out'' (with_dir ''/home/u/out'')) = Inl (KeyError ''html_url'')
   \<and> snd (save_repositories RequestsHttpClient (host_of (alice_net (Some zipball)))
      ([foo_record] @ JObj [(''name'', JStr ''bar'')] # [foo_record])
      ''/home/u/out'' (with_dir ''/home/u/out''))
     = snd (save_repositories RequestsHttpClient (host_of (alice_net (Some zipball)))
      [foo_record] ''/home/u/out'' (with_dir ''/home/u/out''))
   \<and> (\<exists>e s'. main UrllibHttpClient (host_of carol_net) ''carol'' fresh = Some (Inl e, s')
         \<and> Logged ''Completed'' \<notin> set (stdout s'))"
proof -
  have lack: "map_of [(''name'', JStr ''bar'')] ''name'' = None
              \<or> map_of [(''name'', JStr ''bar'')] ''html_url'' = None"
    by simp
  have listed: "JObj [(''name'', JStr ''bar'')] \<in> set [bar_record]"
    by (simp add: bar_record_def)
  have e: "stdout fresh = []" by (simp add: fresh_def)
  from missing_key_raises_key_error [OF lack,
      of RequestsHttpClient "host_of (alice_net (Some zipball))" "[foo_record]" "''/home/u/out''"
         "with_dir ''/home/u/out''" _ "[foo_record]"] save_foo_ok
  have 1: "save_repositories RequestsHttpClient (host_of (alice_net (Some zipball)))
      ([foo_record] @ JObj [(''name'', JStr ''bar'')] # [foo_record])
      ''/home/u/out'' (with_dir ''/home/u/out'')
    = (Inl (KeyError ''html_url''), snd (save_repositories RequestsHttpClient (host_of (alice_net (Some zipball)))
      [foo_record] ''/home/u/out'' (with_dir ''/home/u/out'')))"
    by simp
  from missing_key_raises_key_error [OF lack,
      where c = UrllibHttpClient and h = "host_of carol_net" and user = "''carol''" and w = fresh
        and repositories = "[bar_record]" and s = fresh] carol_listing [of UrllibHttpClient fresh] listed
  have 2: "\<exists>e s'. main UrllibHttpClient (host_of carol_net) ''carol'' fresh = Some (Inl e, s')
         \<and> Logged ''Completed'' \<notin> set (stdout s')"
    by (simp add: e)
  from 1 2 show ?thesis by simp
qed

end
